theory Spec2Isabelle
  imports Complex_Main "HOL-Library.Multiset"
begin

section \<open>Python values: strings, exceptions, HTTP errors\<close>

text \<open>
  Python strings are modelled as \<open>string\<close>; a character stands for a code point below 256,
  and the few non-ASCII literals of the source are written as their UTF-8 bytes.
  An exception is its class and its message (\<open>str(e)\<close>). Only the classes that the source
  raises or tests for are told apart; every other class (driver and API client errors)
  is \<open>OtherException\<close>.
\<close>

datatype exn_class = ValueError | RuntimeError | IndexError | AttributeError | OtherException

datatype exn = Exn exn_class string

fun exn_cls :: "exn \<Rightarrow> exn_class" where
  "exn_cls (Exn c m) = c"

fun str :: "exn \<Rightarrow> string" where
  "str (Exn c m) = m"

text \<open>
  What a request handler hands back when it does not return a body:
  \<open>HTTPException(status_code, detail)\<close> raised by the handler, the framework's rejection of
  a body that fails the pydantic \<open>Field\<close> constraints (status 422), or an exception that
  leaves the handler uncaught (the framework answers 500).
\<close>

datatype http_error =
    HTTPException nat string
  | RequestValidationError
  | Unhandled exn

fun status_code :: "http_error \<Rightarrow> nat" where
  "status_code (HTTPException c d) = c"
| "status_code RequestValidationError = 422"
| "status_code (Unhandled e) = 500"

definition nl :: string where
  "nl = [CHR 0x0A]"

text \<open>\<open>sep.join(parts)\<close>\<close>

fun join :: "string \<Rightarrow> string list \<Rightarrow> string" where
  "join sep [] = []"
| "join sep [x] = x"
| "join sep (x # y # ys) = x @ sep @ join sep (y # ys)"

section \<open>The store and the outside world\<close>

text \<open>
  The embedding components are only stored and handed to the distance operator; no
  arithmetic is done on them.
\<close>

type_synonym embedding = "real list"

text \<open>
  Modelled from the spec: \<open>schema.sql\<close> is not among the sources. The three tables carry the
  columns that the statements of \<open>db.py\<close> name; ids are generated from one sequence per
  table, and \<open>created_at\<close> is assigned by the server when the row is inserted.
\<close>

record document =
  document_id :: int
  doc_name :: string

record chunk =
  chunk_id :: int
  chunk_doc_id :: int
  chunk_content :: string
  chunk_embedding :: embedding

record chat_row =
  chat_id :: int
  chat_session_id :: string
  chat_role :: string
  chat_message :: string
  chat_created_at :: nat

text \<open>The statements that the source sends through a cursor, with their parameters.\<close>

datatype sql =
    DELETE_chunks
  | DELETE_documents
  | DELETE_chat_history
  | INSERT_document string
  | COUNT_documents
  | INSERT_chunk int string embedding
  | SELECT_chunks embedding int
  | INSERT_chat string string string
  | SELECT_chat_history string

record chat_request =
  req_model :: string
  req_messages :: "(string \<times> string) list"
  req_temperature :: real

text \<open>Every call that leaves the process is recorded, in the order it is made.\<close>

datatype call =
    Execute sql
  | EmbeddingsCreate string
  | ChatCompletionsCreate chat_request

text \<open>
  \<open>connected\<close> says that the module global \<open>_conn\<close> is not \<open>None\<close>. The connection is
  opened with \<open>autocommit=True\<close>, so the effect of each statement that succeeds is durable
  at once: the tables of the world are the committed store.
\<close>

record world =
  connected :: bool
  documents :: "document list"
  chunks :: "chunk list"
  chat_history :: "chat_row list"
  documents_id_seq :: int
  chunks_id_seq :: int
  chat_history_id_seq :: int
  calls :: "call list"

definition tables :: "world \<Rightarrow> document list \<times> chunk list \<times> chat_row list" where
  "tables w = (documents w, chunks w, chat_history w)"

definition record_call :: "call \<Rightarrow> world \<Rightarrow> world" where
  "record_call c w = w\<lparr>calls := calls w @ [c]\<rparr>"

section \<open>db.py\<close>

text \<open>
  Each function that executes a statement takes the database engine's verdict on it as its
  first argument: \<open>None\<close> when the engine runs the statement, \<open>Some e\<close> when it raises \<open>e\<close>,
  in which case the statement has no effect. The verdict stands for every rejection of the
  engine: a lost connection, a violated constraint, and for the nearest-neighbour query an
  empty query vector, a query vector of another dimension than a stored one, or a
  \<open>LIMIT\<close> beyond the engine's integers. The one engine error written out is the negative
  \<open>LIMIT\<close>.
\<close>

definition NoneType_cursor :: exn where
  "NoneType_cursor =
     Exn AttributeError
       ([CHR 0x27] @ ''NoneType'' @ [CHR 0x27] @ '' object has no attribute '' @
        [CHR 0x27] @ ''cursor'' @ [CHR 0x27])"

definition not_initialized :: exn where
  "not_initialized =
     Exn RuntimeError
       ([CHR 0xE2, CHR 0x9D, CHR 0x8C] @ '' Database not initialized. Call init_db() first.'')"

definition conn :: "world \<Rightarrow> exn + unit" where
  "conn w = (if \<not> connected w then Inl not_initialized else Inr ())"

definition insert_document :: "exn option \<Rightarrow> string \<Rightarrow> world \<Rightarrow> (exn + int) \<times> world" where
  "insert_document verdict name w =
     (if \<not> connected w then (Inl NoneType_cursor, w)
      else
        let w1 = record_call (Execute (INSERT_document name)) w in
        case verdict of
          Some e \<Rightarrow> (Inl e, w1)
        | None \<Rightarrow>
            let i = documents_id_seq w1 + 1 in
            (Inr i,
             w1\<lparr>documents := documents w1 @ [\<lparr>document_id = i, doc_name = name\<rparr>],
                documents_id_seq := i\<rparr>))"

definition count_documents :: "exn option \<Rightarrow> world \<Rightarrow> (exn + int) \<times> world" where
  "count_documents verdict w =
     (if \<not> connected w then (Inl NoneType_cursor, w)
      else
        let w1 = record_call (Execute COUNT_documents) w in
        case verdict of
          Some e \<Rightarrow> (Inl e, w1)
        | None \<Rightarrow> (Inr (int (length (documents w1))), w1))"

definition insert_chunk ::
  "exn option \<Rightarrow> int \<Rightarrow> string \<Rightarrow> embedding \<Rightarrow> world \<Rightarrow> (exn + int) \<times> world" where
  "insert_chunk verdict doc_id content emb w =
     (if \<not> connected w then (Inl NoneType_cursor, w)
      else
        let w1 = record_call (Execute (INSERT_chunk doc_id content emb)) w in
        case verdict of
          Some e \<Rightarrow> (Inl e, w1)
        | None \<Rightarrow>
            let i = chunks_id_seq w1 + 1 in
            (Inr i,
             w1\<lparr>chunks := chunks w1 @
                   [\<lparr>chunk_id = i, chunk_doc_id = doc_id, chunk_content = content,
                     chunk_embedding = emb\<rparr>],
                chunks_id_seq := i\<rparr>))"

text \<open>A row of the nearest-neighbour query: \<open>id, doc_id, content, distance\<close>.\<close>

record 'd hit =
  hit_id :: int
  hit_doc_id :: int
  hit_content :: string
  hit_distance :: 'd

definition hit_of :: "(embedding \<Rightarrow> embedding \<Rightarrow> 'd) \<Rightarrow> embedding \<Rightarrow> chunk \<Rightarrow> 'd hit" where
  "hit_of distance q c =
     \<lparr>hit_id = chunk_id c, hit_doc_id = chunk_doc_id c, hit_content = chunk_content c,
      hit_distance = distance (chunk_embedding c) q\<rparr>"

definition limit_negative :: exn where
  "limit_negative = Exn OtherException ''LIMIT must not be negative''"

text \<open>
  \<open>distance\<close> is the operator \<open><=>\<close> of the vector extension, with values in the engine's total
  order of distances. The same operator and the same query vector give the \<open>distance\<close>
  column and the \<open>ORDER BY\<close> key. The engine does not fix the order of rows with equal
  keys; the model takes the stable one.
\<close>

definition search_chunks ::
  "exn option \<Rightarrow> (embedding \<Rightarrow> embedding \<Rightarrow> 'd::linorder) \<Rightarrow> embedding \<Rightarrow> int \<Rightarrow> world
     \<Rightarrow> (exn + 'd hit list) \<times> world" where
  "search_chunks verdict distance query_embedding top_k w =
     (if \<not> connected w then (Inl NoneType_cursor, w)
      else
        let w1 = record_call (Execute (SELECT_chunks query_embedding top_k)) w in
        case verdict of
          Some e \<Rightarrow> (Inl e, w1)
        | None \<Rightarrow>
            if top_k < 0 then (Inl limit_negative, w1)
            else
              (Inr (take (nat top_k)
                      (sort_key hit_distance (map (hit_of distance query_embedding) (chunks w1)))),
               w1))"

text \<open>
  \<open>now\<close> is the server clock's reading when the row is inserted (the column default of
  \<open>created_at\<close>).
\<close>

definition insert_chat ::
  "exn option \<Rightarrow> nat \<Rightarrow> string \<Rightarrow> string \<Rightarrow> string \<Rightarrow> world \<Rightarrow> (exn + int) \<times> world" where
  "insert_chat verdict now session_id role message w =
     (if \<not> connected w then (Inl NoneType_cursor, w)
      else
        let w1 = record_call (Execute (INSERT_chat session_id role message)) w in
        case verdict of
          Some e \<Rightarrow> (Inl e, w1)
        | None \<Rightarrow>
            let i = chat_history_id_seq w1 + 1 in
            (Inr i,
             w1\<lparr>chat_history := chat_history w1 @
                   [\<lparr>chat_id = i, chat_session_id = session_id, chat_role = role,
                     chat_message = message, chat_created_at = now\<rparr>],
                chat_history_id_seq := i\<rparr>))"

text \<open>A row of the history query: \<open>role, message, created_at\<close>.\<close>

record history_row =
  h_role :: string
  h_message :: string
  h_created_at :: nat

definition history_of :: "chat_row \<Rightarrow> history_row" where
  "history_of r =
     \<lparr>h_role = chat_role r, h_message = chat_message r, h_created_at = chat_created_at r\<rparr>"

definition get_chat_history ::
  "exn option \<Rightarrow> string \<Rightarrow> world \<Rightarrow> (exn + history_row list) \<times> world" where
  "get_chat_history verdict session_id w =
     (if \<not> connected w then (Inl NoneType_cursor, w)
      else
        let w1 = record_call (Execute (SELECT_chat_history session_id)) w in
        case verdict of
          Some e \<Rightarrow> (Inl e, w1)
        | None \<Rightarrow>
            (Inr (map history_of
                    (sort_key chat_created_at
                       (filter (\<lambda>r. chat_session_id r = session_id) (chat_history w1)))),
             w1))"

section \<open>embeddings.py\<close>

text \<open>
  \<open>client\<close> is \<open>get_client().embeddings.create(model=EMBED_MODEL, input=text)\<close>: it raises,
  or answers with the list \<open>resp.data\<close> of embeddings.
\<close>

definition embed_text ::
  "(string \<Rightarrow> exn + embedding list) \<Rightarrow> string \<Rightarrow> world \<Rightarrow> (exn + embedding) \<times> world" where
  "embed_text client text w =
     (let w1 = record_call (EmbeddingsCreate text) w in
      case client text of
        Inl e \<Rightarrow> (Inl e, w1)
      | Inr data \<Rightarrow>
          (case data of
             [] \<Rightarrow> (Inl (Exn IndexError ''list index out of range''), w1)
           | d # ds \<Rightarrow> (Inr d, w1)))"

section \<open>pdf_processor.py\<close>

text \<open>\<open>str.isspace\<close> on the code points below 256, and \<open>str.strip()\<close>.\<close>

definition isspace :: "char \<Rightarrow> bool" where
  "isspace c =
     (let n = (of_char c :: nat) in
      (9 \<le> n \<and> n \<le> 13) \<or> (28 \<le> n \<and> n \<le> 32) \<or> n = 133 \<or> n = 160)"

definition strip :: "string \<Rightarrow> string" where
  "strip s = rev (dropWhile isspace (rev (dropWhile isspace s)))"

text \<open>\<open>str(n)\<close> for a page number.\<close>

fun str_nat :: "nat \<Rightarrow> string" where
  "str_nat n =
     (if n < 10 then [char_of (48 + n)]
      else str_nat (n div 10) @ [char_of (48 + n mod 10)])"

declare str_nat.simps [simp del]

text \<open>
  A page of the reader is what \<open>page.extract_text()\<close> does on it: raise, or return the text.
  The loop over \<open>enumerate(reader.pages, 1)\<close> carries the page number and the list
  \<open>text_content\<close>; a page that raises is reported on standard output and skipped.
\<close>

type_synonym page = "exn + string"

fun extract_pages :: "nat \<Rightarrow> page list \<Rightarrow> string list \<Rightarrow> string list" where
  "extract_pages page_num [] text_content = text_content"
| "extract_pages page_num (page # pages) text_content =
     (case page of
        Inl e \<Rightarrow> extract_pages (Suc page_num) pages text_content
      | Inr page_text \<Rightarrow>
          if strip page_text \<noteq> []
          then extract_pages (Suc page_num) pages
                 (text_content @ [''--- Page '' @ str_nat page_num @ '' ---'' @ nl @ page_text])
          else extract_pages (Suc page_num) pages text_content)"

text \<open>
  \<open>reader\<close> is \<open>PdfReader(io.BytesIO(pdf_bytes)).pages\<close>: it raises on an unreadable file.
  The \<open>ValueError\<close> for an empty \<open>text_content\<close> is raised inside the outer \<open>try\<close>, so
  the outer handler wraps it like any other exception.
\<close>

definition extract_text_from_pdf :: "(string \<Rightarrow> exn + page list) \<Rightarrow> string \<Rightarrow> exn + string" where
  "extract_text_from_pdf reader pdf_bytes =
     (case reader pdf_bytes of
        Inl e \<Rightarrow> Inl (Exn ValueError (''Failed to extract text from PDF: '' @ str e))
      | Inr pages \<Rightarrow>
          let text_content = extract_pages 1 pages [] in
          if text_content = []
          then Inl (Exn ValueError
                      (''Failed to extract text from PDF: '' @
                       str (Exn ValueError ''No text content found in PDF'')))
          else Inr (join (nl @ nl) text_content))"

text \<open>
  \<open>splitter\<close> is the library's recursive character splitter with the defaults of
  \<open>chunk_pdf_text\<close> (800 characters, overlap 120); a chunk is its \<open>page_content\<close>. The
  metadata that \<open>process_pdf_for_rag\<close> adds to the chunks is read nowhere.
\<close>

definition process_pdf_for_rag ::
  "(string \<Rightarrow> exn + page list) \<Rightarrow> (string \<Rightarrow> string list) \<Rightarrow> string \<Rightarrow> string
     \<Rightarrow> exn + string \<times> string list" where
  "process_pdf_for_rag reader splitter pdf_bytes name =
     (case extract_text_from_pdf reader pdf_bytes of
        Inl e \<Rightarrow> Inl e
      | Inr extracted_text \<Rightarrow> Inr (extracted_text, splitter extracted_text))"

section \<open>main.py\<close>

subsection \<open>Request models\<close>

text \<open>
  A model's constructor is given the fields of the request body, an absent \<open>top_k\<close> being
  \<open>None\<close>, and rejects what the \<open>Field\<close> constraints exclude; the handler runs only on a
  body that passed.
\<close>

record search_in =
  search_embedding :: embedding
  search_top_k :: int

definition SearchIn :: "embedding \<Rightarrow> int option \<Rightarrow> http_error + search_in" where
  "SearchIn emb k =
     (let top_k = (case k of None \<Rightarrow> 5 | Some v \<Rightarrow> v) in
      if 1 \<le> top_k \<and> top_k \<le> 50
      then Inr \<lparr>search_embedding = emb, search_top_k = top_k\<rparr>
      else Inl RequestValidationError)"

record search_text_in =
  search_text_text :: string
  search_text_top_k :: int

definition SearchTextIn :: "string \<Rightarrow> int option \<Rightarrow> http_error + search_text_in" where
  "SearchTextIn t k =
     (let top_k = (case k of None \<Rightarrow> 5 | Some v \<Rightarrow> v) in
      if 1 \<le> top_k \<and> top_k \<le> 50
      then Inr \<lparr>search_text_text = t, search_text_top_k = top_k\<rparr>
      else Inl RequestValidationError)"

record ask_in =
  ask_question :: string
  ask_top_k :: int

definition AskIn :: "string \<Rightarrow> int option \<Rightarrow> http_error + ask_in" where
  "AskIn q k =
     (let top_k = (case k of None \<Rightarrow> 4 | Some v \<Rightarrow> v) in
      if 1 \<le> length q \<and> 1 \<le> top_k \<and> top_k \<le> 20
      then Inr \<lparr>ask_question = q, ask_top_k = top_k\<rparr>
      else Inl RequestValidationError)"

record chat_in =
  in_session_id :: string
  in_role :: string
  in_message :: string

subsection \<open>Reset\<close>

text \<open>
  One \<open>cur.execute\<close> of a \<open>DELETE\<close> without a \<open>WHERE\<close>. The connection commits each
  statement by itself, so the emptied table stays emptied whatever happens afterwards.
\<close>

fun emptied :: "sql \<Rightarrow> world \<Rightarrow> world" where
  "emptied DELETE_chunks w = w\<lparr>chunks := []\<rparr>"
| "emptied DELETE_documents w = w\<lparr>documents := []\<rparr>"
| "emptied DELETE_chat_history w = w\<lparr>chat_history := []\<rparr>"
| "emptied stmt w = w"

definition execute_delete :: "exn option \<Rightarrow> sql \<Rightarrow> world \<Rightarrow> exn option \<times> world" where
  "execute_delete verdict stmt w =
     (let w1 = record_call (Execute stmt) w in
      case verdict of
        Some e \<Rightarrow> (Some e, w1)
      | None \<Rightarrow> (None, emptied stmt w1))"

record reset_out =
  reset_message :: string
  documents_deleted :: bool
  chunks_deleted :: bool
  chat_history_deleted :: bool

definition reset_error :: "exn \<Rightarrow> http_error" where
  "reset_error e = HTTPException 500 (''Database reset error: '' @ str e)"

definition reset_database ::
  "exn option \<Rightarrow> exn option \<Rightarrow> exn option \<Rightarrow> world \<Rightarrow> (http_error + reset_out) \<times> world" where
  "reset_database v1 v2 v3 w =
     (case conn w of
        Inl e \<Rightarrow> (Inl (reset_error e), w)
      | Inr u \<Rightarrow>
          (case execute_delete v1 DELETE_chunks w of
             (Some e, w1) \<Rightarrow> (Inl (reset_error e), w1)
           | (None, w1) \<Rightarrow>
               (case execute_delete v2 DELETE_documents w1 of
                  (Some e, w2) \<Rightarrow> (Inl (reset_error e), w2)
                | (None, w2) \<Rightarrow>
                    (case execute_delete v3 DELETE_chat_history w2 of
                       (Some e, w3) \<Rightarrow> (Inl (reset_error e), w3)
                     | (None, w3) \<Rightarrow>
                         (Inr \<lparr>reset_message = ''Database reset successfully'',
                               documents_deleted = True, chunks_deleted = True,
                               chat_history_deleted = True\<rparr>,
                          w3)))))"

subsection \<open>Retrieval only\<close>

definition search_text ::
  "(string \<Rightarrow> exn + embedding list) \<Rightarrow> exn option \<Rightarrow> (embedding \<Rightarrow> embedding \<Rightarrow> 'd::linorder)
     \<Rightarrow> search_text_in \<Rightarrow> world \<Rightarrow> (http_error + 'd hit list) \<times> world" where
  "search_text client verdict distance body w =
     (case embed_text client (search_text_text body) w of
        (Inl e, w1) \<Rightarrow> (Inl (HTTPException 500 (''/search-text error: '' @ str e)), w1)
      | (Inr qvec, w1) \<Rightarrow>
          (case search_chunks verdict distance qvec (search_text_top_k body) w1 of
             (Inl e, w2) \<Rightarrow> (Inl (HTTPException 500 (''/search-text error: '' @ str e)), w2)
           | (Inr results, w2) \<Rightarrow> (Inr results, w2)))"

text \<open>The handler \<open>search_chunks\<close> of \<open>main.py\<close>, behind \<open>POST /search\<close>.\<close>

definition search_chunks_endpoint ::
  "exn option \<Rightarrow> (embedding \<Rightarrow> embedding \<Rightarrow> 'd::linorder) \<Rightarrow> search_in \<Rightarrow> world
     \<Rightarrow> (http_error + 'd hit list) \<times> world" where
  "search_chunks_endpoint verdict distance body w =
     (case search_chunks verdict distance (search_embedding body) (search_top_k body) w of
        (Inl e, w1) \<Rightarrow> (Inl (HTTPException 500 (''/search error: '' @ str e)), w1)
      | (Inr results, w1) \<Rightarrow> (Inr results, w1))"

text \<open>The two routes as the framework serves them: the model is built first.\<close>

definition post_search ::
  "exn option \<Rightarrow> (embedding \<Rightarrow> embedding \<Rightarrow> 'd::linorder) \<Rightarrow> embedding \<Rightarrow> int option \<Rightarrow> world
     \<Rightarrow> (http_error + 'd hit list) \<times> world" where
  "post_search verdict distance emb k w =
     (case SearchIn emb k of
        Inl err \<Rightarrow> (Inl err, w)
      | Inr body \<Rightarrow> search_chunks_endpoint verdict distance body w)"

definition post_search_text ::
  "(string \<Rightarrow> exn + embedding list) \<Rightarrow> exn option \<Rightarrow> (embedding \<Rightarrow> embedding \<Rightarrow> 'd::linorder)
     \<Rightarrow> string \<Rightarrow> int option \<Rightarrow> world \<Rightarrow> (http_error + 'd hit list) \<times> world" where
  "post_search_text client verdict distance t k w =
     (case SearchTextIn t k of
        Inl err \<Rightarrow> (Inl err, w)
      | Inr body \<Rightarrow> search_text client verdict distance body w)"

subsection \<open>Chat history\<close>

text \<open>\<open>str.lower()\<close> on the code points below 256.\<close>

definition lower_char :: "char \<Rightarrow> char" where
  "lower_char c =
     (let n = (of_char c :: nat) in
      if (65 \<le> n \<and> n \<le> 90) \<or> (192 \<le> n \<and> n \<le> 222 \<and> n \<noteq> 215)
      then char_of (n + 32) else c)"

definition lower :: "string \<Rightarrow> string" where
  "lower s = map lower_char s"

definition add_chat ::
  "exn option \<Rightarrow> nat \<Rightarrow> chat_in \<Rightarrow> world \<Rightarrow> (http_error + int) \<times> world" where
  "add_chat verdict now body w =
     (let role = lower (in_role body) in
      if role \<noteq> ''user'' \<and> role \<noteq> ''assistant''
      then (Inl (HTTPException 400
                   (''role must be '' @ [CHR 0x27] @ ''user'' @ [CHR 0x27] @ '' or '' @
                    [CHR 0x27] @ ''assistant'' @ [CHR 0x27])), w)
      else
        (case insert_chat verdict now (in_session_id body) role (in_message body) w of
           (Inl e, w1) \<Rightarrow> (Inl (HTTPException 500 (''/chat error: '' @ str e)), w1)
         | (Inr i, w1) \<Rightarrow> (Inr i, w1)))"

definition get_chat ::
  "exn option \<Rightarrow> string \<Rightarrow> world \<Rightarrow> (http_error + history_row list) \<times> world" where
  "get_chat verdict session_id w =
     (case get_chat_history verdict session_id w of
        (Inl e, w1) \<Rightarrow>
          (Inl (HTTPException 500 (''/chat/'' @ session_id @ '' error: '' @ str e)), w1)
      | (Inr history, w1) \<Rightarrow> (Inr history, w1))"

subsection \<open>Ask\<close>

text \<open>\<open>os.getenv(key, default)\<close> on the process environment.\<close>

definition getenv :: "(string \<rightharpoonup> string) \<Rightarrow> string \<Rightarrow> string \<Rightarrow> string" where
  "getenv env key dflt = (case env key of None \<Rightarrow> dflt | Some v \<Rightarrow> v)"

text \<open>Building the client checks the key and makes no call.\<close>

definition get_openai_client :: "(string \<rightharpoonup> string) \<Rightarrow> exn + unit" where
  "get_openai_client env =
     (let key = getenv env ''OPENAI_API_KEY'' [] in
      if key = [] then Inl (Exn RuntimeError ''OPENAI_API_KEY is not set'') else Inr ())"

text \<open>
  \<open>choice.message\<close> is an object with an attribute \<open>content\<close>, or a dictionary with a key
  \<open>content\<close>; either may hold no text.
\<close>

datatype choice_message = MessageObject "string option" | MessageDict "string option"

record 'd ask_out =
  answer :: string
  sources :: "'d hit list"

definition unknown_answer :: string where
  "unknown_answer = ''I don't know based on the current knowledge base.''"

definition no_content :: string where
  "no_content =
     [CHR 0xE2, CHR 0x9A, CHR 0xA0, CHR 0xEF, CHR 0xB8, CHR 0x8F] @
     '' No content returned from model.''"

definition system_msg :: string where
  "system_msg =
     ''You are a helpful assistant. Use ONLY the provided context to answer. '' @
     ''If the answer is not in the context, say you don't know.''"

text \<open>Python's truth value of an optional string: \<open>None\<close> and the empty string are false.\<close>

fun truthy :: "string option \<Rightarrow> bool" where
  "truthy None = False"
| "truthy (Some s) = (s \<noteq> [])"

definition answer_of :: "choice_message list \<Rightarrow> string" where
  "answer_of choices =
     (let choice = (case choices of [] \<Rightarrow> None | c # cs \<Rightarrow> Some c);
          answer = (case choice of
                      None \<Rightarrow> None
                    | Some (MessageObject content) \<Rightarrow> content
                    | Some (MessageDict content) \<Rightarrow> None);
          answer = (case choice of
                      Some (MessageDict content) \<Rightarrow> if \<not> truthy answer then content else answer
                    | _ \<Rightarrow> answer)
      in if \<not> truthy answer then no_content else the answer)"

text \<open>
  \<open>chat\<close> is \<open>client.chat.completions.create\<close>: it raises, or answers with \<open>resp.choices\<close>.
  The embedding and the search run outside the \<open>try\<close>, so their exceptions leave the
  handler uncaught.
\<close>

definition ask ::
  "(string \<rightharpoonup> string) \<Rightarrow> (string \<Rightarrow> exn + embedding list) \<Rightarrow> exn option
     \<Rightarrow> (embedding \<Rightarrow> embedding \<Rightarrow> 'd::linorder) \<Rightarrow> (chat_request \<Rightarrow> exn + choice_message list)
     \<Rightarrow> ask_in \<Rightarrow> world \<Rightarrow> (http_error + 'd ask_out) \<times> world" where
  "ask env client verdict distance chat body w =
     (case embed_text client (ask_question body) w of
        (Inl e, w1) \<Rightarrow> (Inl (Unhandled e), w1)
      | (Inr qvec, w1) \<Rightarrow>
          (case search_chunks verdict distance qvec (ask_top_k body) w1 of
             (Inl e, w2) \<Rightarrow> (Inl (Unhandled e), w2)
           | (Inr hits, w2) \<Rightarrow>
               if hits = [] then (Inr \<lparr>answer = unknown_answer, sources = []\<rparr>, w2)
               else
                 let context = join (nl @ nl) (map (\<lambda>h. ''- '' @ hit_content h) hits) in
                 (case get_openai_client env of
                    Inl e \<Rightarrow> (Inl (Unhandled e), w2)
                  | Inr u \<Rightarrow>
                      let chat_model = getenv env ''CHAT_MODEL'' ''gpt-4o-mini'';
                          user_msg = ''Context:'' @ nl @ context @ nl @ nl @ ''Question: '' @
                                     ask_question body @ nl @ ''Answer:'';
                          request = \<lparr>req_model = chat_model,
                                     req_messages = [(''system'', system_msg), (''user'', user_msg)],
                                     req_temperature = 2 / 10\<rparr>;
                          w3 = record_call (ChatCompletionsCreate request) w2
                      in (case chat request of
                            Inl e \<Rightarrow> (Inl (HTTPException 500 (''OpenAI error: '' @ str e)), w3)
                          | Inr choices \<Rightarrow>
                              (Inr \<lparr>answer = answer_of choices, sources = hits\<rparr>, w3)))))"

subsection \<open>PDF upload\<close>

text \<open>\<open>s.endswith(suffix)\<close>\<close>

definition endswith :: "string \<Rightarrow> string \<Rightarrow> bool" where
  "endswith s suffix =
     (length suffix \<le> length s \<and> drop (length s - length suffix) s = suffix)"

text \<open>An uploaded file: its name, and what \<open>await file.read()\<close> does.\<close>

record upload_file =
  filename :: string
  file_read :: "exn + string"

record upload_out =
  upload_message :: string
  upload_doc_id :: int
  upload_filename :: string
  chunks_created :: nat
  text_length :: nat
  chunk_ids :: "int list"

text \<open>
  The loop over the chunks, with the position of the chunk and the list \<open>chunk_ids\<close>. The
  embedding client and the engine may answer each call differently, so both are indexed by
  the position. An exception leaves the loop, and the local \<open>chunk_ids\<close> with it.
\<close>

fun store_chunks ::
  "(nat \<Rightarrow> string \<Rightarrow> exn + embedding list) \<Rightarrow> (nat \<Rightarrow> exn option) \<Rightarrow> int \<Rightarrow> nat \<Rightarrow> string list
     \<Rightarrow> int list \<Rightarrow> world \<Rightarrow> (exn + int list) \<times> world" where
  "store_chunks clients verdicts doc_id i [] ids w = (Inr ids, w)"
| "store_chunks clients verdicts doc_id i (chunk # rest) ids w =
     (case embed_text (clients i) chunk w of
        (Inl e, w1) \<Rightarrow> (Inl e, w1)
      | (Inr emb, w1) \<Rightarrow>
          (case insert_chunk (verdicts i) doc_id chunk emb w1 of
             (Inl e, w2) \<Rightarrow> (Inl e, w2)
           | (Inr cid, w2) \<Rightarrow>
               store_chunks clients verdicts doc_id (Suc i) rest (ids @ [cid]) w2))"

text \<open>The two handlers of the \<open>try\<close>: \<open>except ValueError\<close>, then \<open>except Exception\<close>.\<close>

definition upload_error :: "exn \<Rightarrow> http_error" where
  "upload_error e =
     (if exn_cls e = ValueError then HTTPException 400 (str e)
      else HTTPException 500 (''PDF upload error: '' @ str e))"

definition upload_pdf ::
  "(string \<Rightarrow> exn + page list) \<Rightarrow> (string \<Rightarrow> string list) \<Rightarrow> (nat \<Rightarrow> string \<Rightarrow> exn + embedding list)
     \<Rightarrow> exn option \<Rightarrow> (nat \<Rightarrow> exn option) \<Rightarrow> upload_file \<Rightarrow> world
     \<Rightarrow> (http_error + upload_out) \<times> world" where
  "upload_pdf reader splitter clients doc_verdict verdicts file w =
     (if \<not> endswith (lower (filename file)) ''.pdf''
      then (Inl (HTTPException 400 ''Only PDF files are supported''), w)
      else
        (case file_read file of
           Inl e \<Rightarrow> (Inl (upload_error e), w)
         | Inr pdf_bytes \<Rightarrow>
             (case process_pdf_for_rag reader splitter pdf_bytes (filename file) of
                Inl e \<Rightarrow> (Inl (upload_error e), w)
              | Inr (extracted_text, chunks_) \<Rightarrow>
                  (case insert_document doc_verdict (filename file) w of
                     (Inl e, w1) \<Rightarrow> (Inl (upload_error e), w1)
                   | (Inr doc_id, w1) \<Rightarrow>
                       (case store_chunks clients verdicts doc_id 0 chunks_ [] w1 of
                          (Inl e, w2) \<Rightarrow> (Inl (upload_error e), w2)
                        | (Inr ids, w2) \<Rightarrow>
                            (Inr \<lparr>upload_message = ''PDF uploaded and processed successfully'',
                                  upload_doc_id = doc_id,
                                  upload_filename = filename file,
                                  chunks_created = length ids,
                                  text_length = length extracted_text,
                                  chunk_ids = ids\<rparr>,
                             w2))))))"

section \<open>Notions for stating the properties\<close>

text \<open>
  \<open>mixed_case_of word r\<close>: the string \<open>r\<close> is the lower-case ASCII word \<open>word\<close> with any of
  its letters in upper case.
\<close>

definition ascii_upper :: "char \<Rightarrow> char" where
  "ascii_upper c = char_of (of_char c - (32::nat))"

definition ascii_lowercase :: "char \<Rightarrow> bool" where
  "ascii_lowercase d = (97 \<le> (of_char d :: nat) \<and> (of_char d :: nat) \<le> 122)"

definition mixed_case_of :: "string \<Rightarrow> string \<Rightarrow> bool" where
  "mixed_case_of word r = list_all2 (\<lambda>c d. c = d \<or> c = ascii_upper d) r word"

text \<open>
  A run of inserts that the engine accepts: each entry is the reading of the server clock,
  the session, the role and the message.
\<close>

fun insert_chats :: "(nat \<times> string \<times> string \<times> string) list \<Rightarrow> world \<Rightarrow> world" where
  "insert_chats [] w = w"
| "insert_chats ((now, session_id, role, message) # rest) w =
     insert_chats rest (snd (insert_chat None now session_id role message w))"

fun entry_session :: "nat \<times> string \<times> string \<times> string \<Rightarrow> string" where
  "entry_session (now, session_id, role, message) = session_id"

fun entry_time :: "nat \<times> string \<times> string \<times> string \<Rightarrow> nat" where
  "entry_time (now, session_id, role, message) = now"

fun entry_row :: "nat \<times> string \<times> string \<times> string \<Rightarrow> history_row" where
  "entry_row (now, session_id, role, message) =
     \<lparr>h_role = role, h_message = message, h_created_at = now\<rparr>"

text \<open>
  A page yields text when \<open>extract_text\<close> returns on it and the text has a character that
  is not white space. \<open>page_block\<close> is what such a page contributes to the extracted text.
\<close>

fun yields_text :: "page \<Rightarrow> bool" where
  "yields_text (Inl e) = False"
| "yields_text (Inr page_text) = list_ex (\<lambda>c. \<not> isspace c) page_text"

fun page_block :: "nat \<times> page \<Rightarrow> string" where
  "page_block (page_num, Inr page_text) =
     ''--- Page '' @ str_nat page_num @ '' ---'' @ nl @ page_text"
| "page_block (page_num, Inl e) = []"

definition no_text_found :: string where
  "no_text_found = ''Failed to extract text from PDF: No text content found in PDF''"

text \<open>
  The outcome of the loop body of \<open>upload_pdf\<close> on the chunk at position \<open>i\<close>: the error of
  the embedding request or of the insert, or the embedding that was stored.
  \<open>stored_rows\<close> are the rows that a run of successful bodies appends, with consecutive
  ids, and \<open>body_calls\<close> the calls that it makes.
\<close>

fun first_embedding :: "exn + embedding list \<Rightarrow> exn + embedding" where
  "first_embedding (Inl e) = Inl e"
| "first_embedding (Inr []) = Inl (Exn IndexError ''list index out of range'')"
| "first_embedding (Inr (d # ds)) = Inr d"

definition chunk_outcome ::
  "(nat \<Rightarrow> string \<Rightarrow> exn + embedding list) \<Rightarrow> (nat \<Rightarrow> exn option) \<Rightarrow> nat \<Rightarrow> string
     \<Rightarrow> exn + embedding" where
  "chunk_outcome clients verdicts i chunk =
     (case first_embedding (clients i chunk) of
        Inl e \<Rightarrow> Inl e
      | Inr v \<Rightarrow> (case verdicts i of Some e \<Rightarrow> Inl e | None \<Rightarrow> Inr v))"

fun stored_rows :: "int \<Rightarrow> int \<Rightarrow> (string \<times> embedding) list \<Rightarrow> chunk list" where
  "stored_rows doc_id seq [] = []"
| "stored_rows doc_id seq ((c, v) # rest) =
     \<lparr>chunk_id = seq + 1, chunk_doc_id = doc_id, chunk_content = c, chunk_embedding = v\<rparr> #
     stored_rows doc_id (seq + 1) rest"

fun body_calls :: "int \<Rightarrow> (string \<times> embedding) list \<Rightarrow> call list" where
  "body_calls doc_id [] = []"
| "body_calls doc_id ((c, v) # rest) =
     EmbeddingsCreate c # Execute (INSERT_chunk doc_id c v) # body_calls doc_id rest"

text \<open>The calls of the body that fails: the request, and the insert if the request went through.\<close>

definition failing_calls ::
  "(nat \<Rightarrow> string \<Rightarrow> exn + embedding list) \<Rightarrow> int \<Rightarrow> nat \<Rightarrow> string \<Rightarrow> call list" where
  "failing_calls clients doc_id i chunk =
     EmbeddingsCreate chunk #
     (case first_embedding (clients i chunk) of
        Inl e \<Rightarrow> []
      | Inr v \<Rightarrow> [Execute (INSERT_chunk doc_id chunk v)])"

section \<open>Sample states and inputs\<close>

definition stocked :: world where
  "stocked =
     \<lparr>connected = True,
      documents = [\<lparr>document_id = 1, doc_name = ''a.pdf''\<rparr>],
      chunks = [\<lparr>chunk_id = 1, chunk_doc_id = 1, chunk_content = ''alpha'',
                 chunk_embedding = [1, 0]\<rparr>,
                \<lparr>chunk_id = 2, chunk_doc_id = 1, chunk_content = ''beta'',
                 chunk_embedding = [0, 1]\<rparr>],
      chat_history = [\<lparr>chat_id = 1, chat_session_id = ''s'', chat_role = ''user'',
                       chat_message = ''hi'', chat_created_at = 10\<rparr>],
      documents_id_seq = 1, chunks_id_seq = 2, chat_history_id_seq = 1, calls = []\<rparr>"

definition unstocked :: world where
  "unstocked =
     \<lparr>connected = True, documents = [], chunks = [], chat_history = [],
      documents_id_seq = 0, chunks_id_seq = 0, chat_history_id_seq = 0, calls = []\<rparr>"

definition boom :: exn where
  "boom = Exn OtherException ''server closed the connection unexpectedly''"

text \<open>A stand-in for the distance operator: the number of positions where two vectors differ.\<close>

definition mismatches :: "embedding \<Rightarrow> embedding \<Rightarrow> nat" where
  "mismatches a b = length (filter (\<lambda>(x, y). x \<noteq> y) (zip a b))"

definition shout :: chat_in where
  "shout = \<lparr>in_session_id = ''s'', in_role = ''ASSISTANT'', in_message = ''hello''\<rparr>"

definition intruder :: chat_in where
  "intruder = \<lparr>in_session_id = ''s'', in_role = ''system'', in_message = ''hello''\<rparr>"

definition one_vector :: "string \<Rightarrow> exn + embedding list" where
  "one_vector t = Inr [[1, 0]]"

definition curious :: ask_in where
  "curious = \<lparr>ask_question = ''why?'', ask_top_k = 4\<rparr>"

definition unreachable_chat :: "chat_request \<Rightarrow> exn + choice_message list" where
  "unreachable_chat r = Inl boom"

definition short_vector :: "string \<Rightarrow> exn + embedding list" where
  "short_vector t = Inr [[1, 2]]"

definition failing_client :: "string \<Rightarrow> exn + embedding list" where
  "failing_client t = Inl boom"

definition dialogue :: "(nat \<times> string \<times> string \<times> string) list" where
  "dialogue =
     [(11, ''s'', ''user'', ''what is a chunk?''),
      (12, ''s'', ''assistant'', ''a slice of a document''),
      (13, ''t'', ''user'', ''unrelated''),
      (14, ''s'', ''user'', ''thanks'')]"

text \<open>A reader that finds a blank page, a page that cannot be read, and a page of text.\<close>

definition three_pages :: "string \<Rightarrow> exn + page list" where
  "three_pages pdf_bytes = Inr [Inr ''  '', Inl boom, Inr ''Hello'']"

definition blank_pages :: "string \<Rightarrow> exn + page list" where
  "blank_pages pdf_bytes = Inr [Inr ''  '', Inl boom]"

definition scan :: upload_file where
  "scan = \<lparr>filename = ''Scan.PDF'', file_read = Inr ''%PDF-1.4''\<rparr>"

definition whole_text :: "string \<Rightarrow> string list" where
  "whole_text t = [t]"

definition same_client :: "nat \<Rightarrow> string \<Rightarrow> exn + embedding list" where
  "same_client i t = Inr [[1, 0]]"

definition no_faults :: "nat \<Rightarrow> exn option" where
  "no_faults i = None"

definition left_right :: "string \<Rightarrow> string list" where
  "left_right t = [''left'', ''right'']"

definition fail_first :: "nat \<Rightarrow> exn option" where
  "fail_first i = (if i = 0 then Some boom else None)"

definition fail_second :: "nat \<Rightarrow> exn option" where
  "fail_second i = (if i = 1 then Some boom else None)"

text \<open>
  The store after the dialogue, with the rows of the chat table held in the reverse of
  the order in which they were inserted.
\<close>

definition shuffled :: world where
  "shuffled =
     (insert_chats dialogue stocked)
       \<lparr>chat_history := rev (chat_history (insert_chats dialogue stocked))\<rparr>"

section \<open>Auxiliary facts\<close>

lemma embed_text_calls:
  "embed_text client text w = (r, w1) \<Longrightarrow> w1 = record_call (EmbeddingsCreate text) w"
  by (auto simp: embed_text_def Let_def split: sum.splits list.splits)

lemma search_chunks_connected:
  "connected w \<Longrightarrow>
   search_chunks verdict distance q k w =
     (case verdict of
        Some e \<Rightarrow> Inl e
      | None \<Rightarrow>
          if k < 0 then Inl limit_negative
          else Inr (take (nat k) (sort_key hit_distance (map (hit_of distance q) (chunks w)))),
      record_call (Execute (SELECT_chunks q k)) w)"
  by (simp add: search_chunks_def Let_def record_call_def split: option.splits)

lemma search_chunks_Inr_calls:
  "search_chunks verdict distance q k w = (Inr hits, w1) \<Longrightarrow>
     w1 = record_call (Execute (SELECT_chunks q k)) w"
  by (auto simp: search_chunks_def Let_def split: if_splits option.splits)

lemma search_chunks_Inr:
  "fst (search_chunks verdict distance q k w) = Inr hits \<Longrightarrow>
   0 \<le> k \<and> hits = take (nat k) (sort_key hit_distance (map (hit_of distance q) (chunks w)))"
  by (auto simp: search_chunks_def Let_def record_call_def split: option.splits if_splits)

lemma execute_delete_simps:
  "execute_delete (Some e) stmt w = (Some e, record_call (Execute stmt) w)"
  "execute_delete None stmt w = (None, emptied stmt (record_call (Execute stmt) w))"
  by (simp_all add: execute_delete_def)

lemma reset_database_Inr:
  assumes "reset_database v1 v2 v3 w = (Inr out, w')"
  shows "connected w' \<and> documents w' = [] \<and> chunks w' = [] \<and> chat_history w' = []"
  using assms
  by (cases v1; cases v2; cases v3)
     (auto simp: reset_database_def conn_def execute_delete_simps record_call_def
        split: if_splits)

lemma reset_stocked:
  "reset_database None None None stocked =
     (Inr \<lparr>reset_message = ''Database reset successfully'', documents_deleted = True,
           chunks_deleted = True, chat_history_deleted = True\<rparr>,
      snd (reset_database None None None stocked))"
  by (simp add: reset_database_def conn_def execute_delete_simps stocked_def)

lemma of_char_lt: "(of_char c :: nat) < 256"
proof -
  have "(of_char c :: nat) mod 256 = of_char c" by (rule of_char_mod_256)
  then show ?thesis by (metis mod_less_divisor zero_less_numeral)
qed

lemma char_eq_iff_nat: "c = d \<longleftrightarrow> (of_char c :: nat) = of_char d"
  by (metis of_char_eq_iff)

lemma of_char_lower_char:
  "(of_char (lower_char c) :: nat) =
     (if (65 \<le> (of_char c :: nat) \<and> (of_char c :: nat) \<le> 90) \<or>
         (192 \<le> (of_char c :: nat) \<and> (of_char c :: nat) \<le> 222 \<and> (of_char c :: nat) \<noteq> 215)
      then of_char c + 32 else of_char c)"
proof -
  have m: "(of_char c :: nat) \<le> 222 \<Longrightarrow> ((of_char c :: nat) + 32) mod 256 = of_char c + 32"
    by simp
  show ?thesis
    unfolding lower_char_def Let_def
    using m by (auto simp: of_char_of)
qed

lemma of_char_ascii_upper:
  "ascii_lowercase d \<Longrightarrow> (of_char (ascii_upper d) :: nat) = of_char d - 32"
proof -
  assume a: "ascii_lowercase d"
  define m where "m = (of_char d :: nat)"
  from a have "m - 32 < 256" unfolding m_def ascii_lowercase_def by arith
  then have "(m - 32) mod 256 = m - 32" by simp
  then show ?thesis unfolding ascii_upper_def m_def [symmetric] by (simp add: of_char_of)
qed

lemma lower_char_eq_letter:
  assumes "ascii_lowercase d"
  shows "lower_char c = d \<longleftrightarrow> c = d \<or> c = ascii_upper d"
proof -
  define n where "n = (of_char c :: nat)"
  define m where "m = (of_char d :: nat)"
  have r: "97 \<le> m" "m \<le> 122" using assms unfolding m_def ascii_lowercase_def by simp_all
  have 1: "lower_char c = d \<longleftrightarrow>
        (if (65 \<le> n \<and> n \<le> 90) \<or> (192 \<le> n \<and> n \<le> 222 \<and> n \<noteq> 215) then n + 32 else n) = m"
    unfolding n_def m_def char_eq_iff_nat [of "lower_char c" d] of_char_lower_char ..
  have 2: "c = ascii_upper d \<longleftrightarrow> n = m - 32"
    unfolding n_def m_def char_eq_iff_nat [of c "ascii_upper d"]
      of_char_ascii_upper [OF assms] ..
  have 3: "c = d \<longleftrightarrow> n = m"
    unfolding n_def m_def by (rule char_eq_iff_nat)
  show ?thesis
    unfolding 1 2 3 using r
    by (cases "(65 \<le> n \<and> n \<le> 90) \<or> (192 \<le> n \<and> n \<le> 222 \<and> n \<noteq> 215)"; simp; arith)
qed

lemma lower_eq_word:
  "list_all ascii_lowercase word \<Longrightarrow> lower r = word \<longleftrightarrow> mixed_case_of word r"
proof (induction word arbitrary: r)
  case Nil
  then show ?case by (simp add: lower_def mixed_case_of_def)
next
  case (Cons d ds)
  show ?case
  proof (cases r)
    case Nil
    then show ?thesis by (simp add: lower_def mixed_case_of_def)
  next
    case (Cons c cs)
    have "lower cs = ds \<longleftrightarrow> mixed_case_of ds cs"
      using Cons.IH Cons.prems by simp
    moreover have "lower_char c = d \<longleftrightarrow> c = d \<or> c = ascii_upper d"
      using Cons.prems by (simp add: lower_char_eq_letter)
    ultimately show ?thesis
      using Cons by (simp add: lower_def mixed_case_of_def)
  qed
qed

lemma user_lowercase: "list_all ascii_lowercase ''user''"
  by (simp add: ascii_lowercase_def)

lemma assistant_lowercase: "list_all ascii_lowercase ''assistant''"
  by (simp add: ascii_lowercase_def)

lemma add_chat_rejects:
  "lower (in_role body) \<noteq> ''user'' \<Longrightarrow> lower (in_role body) \<noteq> ''assistant'' \<Longrightarrow>
   add_chat verdict now body w =
     (Inl (HTTPException 400
             (''role must be '' @ [CHR 0x27] @ ''user'' @ [CHR 0x27] @ '' or '' @
              [CHR 0x27] @ ''assistant'' @ [CHR 0x27])), w)"
  unfolding add_chat_def Let_def by (simp only: simp_thms if_True)

lemma add_chat_accepts:
  assumes "connected w"
    and "lower (in_role body) = ''user'' \<or> lower (in_role body) = ''assistant''"
  shows "add_chat None now body w =
        (Inr (chat_history_id_seq w + 1),
         w\<lparr>calls := calls w @ [Execute (INSERT_chat (in_session_id body) (lower (in_role body))
                                          (in_message body))],
           chat_history := chat_history w @
             [\<lparr>chat_id = chat_history_id_seq w + 1, chat_session_id = in_session_id body,
               chat_role = lower (in_role body), chat_message = in_message body,
               chat_created_at = now\<rparr>],
           chat_history_id_seq := chat_history_id_seq w + 1\<rparr>)"
proof -
  have i: "insert_chat None now (in_session_id body) (lower (in_role body)) (in_message body) w =
        (Inr (chat_history_id_seq w + 1),
         w\<lparr>calls := calls w @ [Execute (INSERT_chat (in_session_id body) (lower (in_role body))
                                          (in_message body))],
           chat_history := chat_history w @
             [\<lparr>chat_id = chat_history_id_seq w + 1, chat_session_id = in_session_id body,
               chat_role = lower (in_role body), chat_message = in_message body,
               chat_created_at = now\<rparr>],
           chat_history_id_seq := chat_history_id_seq w + 1\<rparr>)"
    using assms(1) by (simp add: insert_chat_def Let_def record_call_def)
  have c: "\<not> (lower (in_role body) \<noteq> ''user'' \<and> lower (in_role body) \<noteq> ''assistant'')"
    using assms(2) by blast
  show ?thesis
    unfolding add_chat_def Let_def i using c by (simp only: if_False prod.case sum.case)
qed

lemma post_search_calls:
  "calls (snd (post_search verdict distance emb k w)) =
     (case SearchIn emb k of
        Inl err \<Rightarrow> calls w
      | Inr body \<Rightarrow>
          if connected w then calls w @ [Execute (SELECT_chunks emb (search_top_k body))]
          else calls w)"
  by (auto simp: post_search_def search_chunks_endpoint_def search_chunks_def Let_def
        record_call_def SearchIn_def split: sum.splits option.splits if_splits)

lemma insert_chat_connected:
  "connected w \<Longrightarrow>
   snd (insert_chat None now sid role message w) =
     w\<lparr>calls := calls w @ [Execute (INSERT_chat sid role message)],
       chat_history := chat_history w @
         [\<lparr>chat_id = chat_history_id_seq w + 1, chat_session_id = sid, chat_role = role,
           chat_message = message, chat_created_at = now\<rparr>],
       chat_history_id_seq := chat_history_id_seq w + 1\<rparr>"
  by (simp add: insert_chat_def Let_def record_call_def)

lemma insert_chats_rows:
  "connected w \<Longrightarrow>
   connected (insert_chats entries w)
   \<and> map history_of (filter (\<lambda>r. chat_session_id r = s) (chat_history (insert_chats entries w))) =
       map history_of (filter (\<lambda>r. chat_session_id r = s) (chat_history w)) @
       map entry_row (filter (\<lambda>e. entry_session e = s) entries)
   \<and> map chat_created_at
         (filter (\<lambda>r. chat_session_id r = s) (chat_history (insert_chats entries w))) =
       map chat_created_at (filter (\<lambda>r. chat_session_id r = s) (chat_history w)) @
       map entry_time (filter (\<lambda>e. entry_session e = s) entries)"
proof (induction entries arbitrary: w)
  case Nil
  then show ?case by simp
next
  case (Cons e entries)
  obtain now sid role message where e: "e = (now, sid, role, message)"
    by (cases e) auto
  let ?w = "snd (insert_chat None now sid role message w)"
  have c: "connected ?w" using Cons.prems by (simp add: insert_chat_connected)
  have h: "chat_history ?w = chat_history w @
         [\<lparr>chat_id = chat_history_id_seq w + 1, chat_session_id = sid, chat_role = role,
           chat_message = message, chat_created_at = now\<rparr>]"
    using Cons.prems by (simp add: insert_chat_connected)
  from Cons.IH [OF c] show ?case
    unfolding e by (simp add: h history_of_def)
qed

lemma get_chat_history_connected:
  "connected w \<Longrightarrow>
   fst (get_chat_history None s w) =
     Inr (map history_of
            (sort_key chat_created_at (filter (\<lambda>r. chat_session_id r = s) (chat_history w))))"
  by (simp add: get_chat_history_def Let_def record_call_def)

lemma dialogue_stocked_connected: "connected (insert_chats dialogue stocked)"
proof -
  have "connected stocked" by (simp add: stocked_def)
  from insert_chats_rows [OF this, of dialogue "''s''"] show ?thesis by blast
qed

lemma strip_nonempty: "strip s \<noteq> [] \<longleftrightarrow> list_ex (\<lambda>c. \<not> isspace c) s"
proof (cases "dropWhile isspace s = []")
  case True
  then have "\<forall>x \<in> set s. isspace x" by (simp add: dropWhile_eq_Nil_conv)
  then have "\<not> list_ex (\<lambda>c. \<not> isspace c) s" by (simp add: list_ex_iff)
  moreover have "strip s = []" unfolding strip_def True by simp
  ultimately show ?thesis by simp
next
  case False
  then have h: "\<not> isspace (hd (dropWhile isspace s))" by (rule hd_dropWhile)
  have m: "hd (dropWhile isspace s) \<in> set (dropWhile isspace s)" using False by simp
  then have "hd (dropWhile isspace s) \<in> set s"
    using set_dropWhileD by fastforce
  with h have 1: "list_ex (\<lambda>c. \<not> isspace c) s" unfolding list_ex_iff by blast
  have "\<not> (\<forall>x \<in> set (dropWhile isspace s). isspace x)" using h m by blast
  then have "strip s \<noteq> []" by (simp add: strip_def dropWhile_eq_Nil_conv)
  with 1 show ?thesis by simp
qed

lemma extract_pages_blocks:
  "extract_pages n pages acc =
     acc @ map page_block (filter (\<lambda>(i, p). yields_text p) (enumerate n pages))"
proof (induction pages arbitrary: n acc)
  case Nil
  then show ?case by simp
next
  case (Cons p pages)
  show ?case
  proof (cases p)
    case (Inl e)
    then show ?thesis by (simp add: Cons.IH)
  next
    case (Inr t)
    then show ?thesis by (simp add: Cons.IH strip_nonempty)
  qed
qed

lemma extract_pages_empty:
  "extract_pages n pages acc = [] \<longleftrightarrow> acc = [] \<and> \<not> list_ex yields_text pages"
proof (induction pages arbitrary: n acc)
  case Nil
  then show ?case by simp
next
  case (Cons p pages)
  show ?case
  proof (cases p)
    case (Inl e)
    then show ?thesis by (simp add: Cons.IH)
  next
    case (Inr t)
    then show ?thesis by (simp add: Cons.IH strip_nonempty)
  qed
qed

lemma embed_text_first_embedding:
  "embed_text client text w = (first_embedding (client text), record_call (EmbeddingsCreate text) w)"
  by (cases "client text" rule: first_embedding.cases) (simp_all add: embed_text_def)

lemma chunk_outcome_Inr:
  "chunk_outcome clients verdicts i c = Inr v \<longleftrightarrow>
     first_embedding (clients i c) = Inr v \<and> verdicts i = None"
  by (auto simp: chunk_outcome_def split: sum.splits option.splits)

lemma insert_chunk_connected:
  "connected w \<Longrightarrow>
   insert_chunk verdict d c v w =
     (case verdict of
        Some e \<Rightarrow> (Inl e, w\<lparr>calls := calls w @ [Execute (INSERT_chunk d c v)]\<rparr>)
      | None \<Rightarrow>
          (Inr (chunks_id_seq w + 1),
           w\<lparr>calls := calls w @ [Execute (INSERT_chunk d c v)],
             chunks := chunks w @
               [\<lparr>chunk_id = chunks_id_seq w + 1, chunk_doc_id = d, chunk_content = c,
                 chunk_embedding = v\<rparr>],
             chunks_id_seq := chunks_id_seq w + 1\<rparr>))"
  by (simp add: insert_chunk_def Let_def record_call_def split: option.splits)

lemma store_chunks_step_ok:
  assumes "connected w" and "chunk_outcome clients verdicts i c = Inr v"
  shows "store_chunks clients verdicts d i (c # rest) ids w =
         store_chunks clients verdicts d (Suc i) rest (ids @ [chunks_id_seq w + 1])
           (w\<lparr>calls := calls w @ [EmbeddingsCreate c, Execute (INSERT_chunk d c v)],
             chunks := chunks w @
               [\<lparr>chunk_id = chunks_id_seq w + 1, chunk_doc_id = d, chunk_content = c,
                 chunk_embedding = v\<rparr>],
             chunks_id_seq := chunks_id_seq w + 1\<rparr>)"
proof -
  from assms(2) have f: "first_embedding (clients i c) = Inr v" and n: "verdicts i = None"
    by (simp_all add: chunk_outcome_Inr)
  have c1: "connected (record_call (EmbeddingsCreate c) w)"
    using assms(1) by (simp add: record_call_def)
  show ?thesis
    by (simp add: embed_text_first_embedding f n insert_chunk_connected [OF c1])
       (simp add: record_call_def)
qed

lemma store_chunks_step_fail:
  assumes "connected w" and "chunk_outcome clients verdicts i c = Inl e"
  shows "store_chunks clients verdicts d i (c # rest) ids w =
         (Inl e, w\<lparr>calls := calls w @ failing_calls clients d i c\<rparr>)"
proof -
  have c1: "connected (record_call (EmbeddingsCreate c) w)"
    using assms(1) by (simp add: record_call_def)
  show ?thesis
  proof (cases "first_embedding (clients i c)")
    case (Inl e')
    with assms(2) have "e' = e" by (simp add: chunk_outcome_def)
    with Inl show ?thesis
      by (simp add: embed_text_first_embedding failing_calls_def record_call_def)
  next
    case (Inr v)
    with assms(2) have "verdicts i = Some e"
      by (simp add: chunk_outcome_def split: option.splits)
    with Inr show ?thesis
      by (simp add: embed_text_first_embedding failing_calls_def
            insert_chunk_connected [OF c1])
         (simp add: record_call_def)
  qed
qed

lemma store_chunks_prefix:
  assumes "connected w"
    and "list_all2 (\<lambda>(j, c) v. chunk_outcome clients verdicts j c = Inr v) (enumerate i pre) vs"
  shows "store_chunks clients verdicts d i (pre @ rest) ids w =
         store_chunks clients verdicts d (i + length pre) rest
           (ids @ map chunk_id (stored_rows d (chunks_id_seq w) (zip pre vs)))
           (w\<lparr>calls := calls w @ body_calls d (zip pre vs),
             chunks := chunks w @ stored_rows d (chunks_id_seq w) (zip pre vs),
             chunks_id_seq := chunks_id_seq w + int (length pre)\<rparr>)"
  using assms
proof (induction pre arbitrary: i ids w vs)
  case Nil
  then show ?case by simp
next
  case (Cons c pre)
  from Cons.prems(2) obtain v vs' where vs: "vs = v # vs'"
    and o: "chunk_outcome clients verdicts i c = Inr v"
    and r: "list_all2 (\<lambda>(j, c) v. chunk_outcome clients verdicts j c = Inr v)
              (enumerate (Suc i) pre) vs'"
    by (cases vs) auto
  let ?w = "w\<lparr>calls := calls w @ [EmbeddingsCreate c, Execute (INSERT_chunk d c v)],
             chunks := chunks w @
               [\<lparr>chunk_id = chunks_id_seq w + 1, chunk_doc_id = d, chunk_content = c,
                 chunk_embedding = v\<rparr>],
             chunks_id_seq := chunks_id_seq w + 1\<rparr>"
  have c: "connected ?w" using Cons.prems(1) by simp
  have "store_chunks clients verdicts d i ((c # pre) @ rest) ids w =
        store_chunks clients verdicts d (Suc i) (pre @ rest) (ids @ [chunks_id_seq w + 1]) ?w"
    using store_chunks_step_ok [OF Cons.prems(1) o] by simp
  also have "\<dots> = store_chunks clients verdicts d (Suc i + length pre) rest
           ((ids @ [chunks_id_seq w + 1]) @
              map chunk_id (stored_rows d (chunks_id_seq ?w) (zip pre vs')))
           (?w\<lparr>calls := calls ?w @ body_calls d (zip pre vs'),
             chunks := chunks ?w @ stored_rows d (chunks_id_seq ?w) (zip pre vs'),
             chunks_id_seq := chunks_id_seq ?w + int (length pre)\<rparr>)"
    by (rule Cons.IH [OF c r])
  finally show ?case by (simp add: vs add.commute add.left_commute)
qed

lemma sample_text:
  "process_pdf_for_rag three_pages left_right ''%PDF-1.4'' (filename scan) =
     Inr (''--- Page 3 ---'' @ nl @ ''Hello'', [''left'', ''right''])"
  by code_simp

lemma sample_name: "endswith (lower (filename scan)) ''.pdf''"
  unfolding scan_def by code_simp

lemma sample_document:
  "insert_document None (filename scan) stocked =
     (Inr 2, snd (insert_document None (filename scan) stocked))"
  by (simp add: insert_document_def stocked_def record_call_def)

lemma sample_document_world:
  "connected (snd (insert_document None (filename scan) stocked))"
  "chunks (snd (insert_document None (filename scan) stocked)) = chunks stocked"
  "chunks_id_seq (snd (insert_document None (filename scan) stocked)) = 2"
  by (simp_all add: insert_document_def stocked_def record_call_def)

section \<open>Answering with nothing retrieved\<close>

text \<open>
  C1. Whenever the embedding of the question succeeds and the nearest-neighbour search
  returns no chunk, \<open>ask\<close> returns the fixed answer
  "I don't know based on the current knowledge base." with an empty list of sources; the
  calls made are the embedding request and the search statement, and no chat completion
  is requested.
\<close>

theorem ask_empty_retrieval:
  assumes "embed_text client (ask_question body) w = (Inr qvec, w1)"
    and "search_chunks verdict distance qvec (ask_top_k body) w1 = (Inr [], w2)"
  shows "ask env client verdict distance chat body w =
           (Inr \<lparr>answer = ''I don't know based on the current knowledge base.'',
                 sources = []\<rparr>, w2)
         \<and> calls w2 = calls w @ [EmbeddingsCreate (ask_question body),
                                   Execute (SELECT_chunks qvec (ask_top_k body))]
         \<and> (\<forall>r. ChatCompletionsCreate r \<notin> set (drop (length (calls w)) (calls w2)))"
proof -
  have a: "ask env client verdict distance chat body w =
           (Inr \<lparr>answer = unknown_answer, sources = []\<rparr>, w2)"
    using assms by (simp add: ask_def)
  have c1: "w1 = record_call (EmbeddingsCreate (ask_question body)) w"
    using assms(1) by (rule embed_text_calls)
  have c2: "w2 = record_call (Execute (SELECT_chunks qvec (ask_top_k body))) w1"
    using assms(2) by (rule search_chunks_Inr_calls)
  have c: "calls w2 = calls w @ [EmbeddingsCreate (ask_question body),
                                   Execute (SELECT_chunks qvec (ask_top_k body))]"
    by (simp add: c1 c2 record_call_def)
  show ?thesis using a c by (simp add: unknown_answer_def)
qed

theorem ask_empty_retrieval_witness:
  "embed_text one_vector (ask_question curious) unstocked =
     (Inr [1, 0], record_call (EmbeddingsCreate ''why?'') unstocked)
   \<and> search_chunks None mismatches [1, 0] (ask_top_k curious)
       (record_call (EmbeddingsCreate ''why?'') unstocked) =
     (Inr [], record_call (Execute (SELECT_chunks [1, 0] 4))
                (record_call (EmbeddingsCreate ''why?'') unstocked))
   \<and> ask Map.empty one_vector None mismatches unreachable_chat curious unstocked =
     (Inr \<lparr>answer = ''I don't know based on the current knowledge base.'', sources = []\<rparr>,
      record_call (Execute (SELECT_chunks [1, 0] 4))
        (record_call (EmbeddingsCreate ''why?'') unstocked))"
proof -
  have e: "embed_text one_vector (ask_question curious) unstocked =
     (Inr [1, 0], record_call (EmbeddingsCreate ''why?'') unstocked)"
    by (simp add: embed_text_def one_vector_def curious_def)
  have s: "search_chunks None mismatches [1, 0] (ask_top_k curious)
       (record_call (EmbeddingsCreate ''why?'') unstocked) =
     (Inr [], record_call (Execute (SELECT_chunks [1, 0] 4))
                (record_call (EmbeddingsCreate ''why?'') unstocked))"
    by (simp add: search_chunks_def record_call_def unstocked_def curious_def)
  from ask_empty_retrieval [OF e s, of Map.empty unreachable_chat] e s
  show ?thesis by simp
qed

section \<open>Resetting the store\<close>

text \<open>
  C2, as the code has it. \<open>reset_database\<close> issues the three deletes in the order chunks,
  documents, chat history, each committed by itself: there is no enclosing transaction.
  When a delete fails the caller gets a 500 error, the failing delete and the ones after
  it change nothing, and the deletes before it persist; when all three succeed the three
  tables are empty. In every outcome the documents are deleted only after the chunks.
\<close>

theorem reset_database_autocommit:
  assumes "connected w"
  shows "fst (reset_database v1 v2 v3 w) =
           (case v1 of Some e \<Rightarrow> Inl (reset_error e)
            | None \<Rightarrow> (case v2 of Some e \<Rightarrow> Inl (reset_error e)
              | None \<Rightarrow> (case v3 of Some e \<Rightarrow> Inl (reset_error e)
                | None \<Rightarrow> Inr \<lparr>reset_message = ''Database reset successfully'',
                               documents_deleted = True, chunks_deleted = True,
                               chat_history_deleted = True\<rparr>)))
       \<and> tables (snd (reset_database v1 v2 v3 w)) =
           (case v1 of Some e \<Rightarrow> (documents w, chunks w, chat_history w)
            | None \<Rightarrow> (case v2 of Some e \<Rightarrow> (documents w, [], chat_history w)
              | None \<Rightarrow> (case v3 of Some e \<Rightarrow> ([], [], chat_history w)
                | None \<Rightarrow> ([], [], []))))
       \<and> calls (snd (reset_database v1 v2 v3 w)) =
           calls w @ map Execute
             (case v1 of Some e \<Rightarrow> [DELETE_chunks]
              | None \<Rightarrow> (case v2 of Some e \<Rightarrow> [DELETE_chunks, DELETE_documents]
                | None \<Rightarrow> [DELETE_chunks, DELETE_documents, DELETE_chat_history]))"
  using assms
  by (cases v1; cases v2; cases v3)
     (simp_all add: reset_database_def conn_def execute_delete_simps record_call_def tables_def)

theorem reset_database_autocommit_witness:
  "connected stocked
   \<and> fst (reset_database None None (Some boom) stocked) = Inl (reset_error boom)
   \<and> tables (snd (reset_database None None (Some boom) stocked)) =
       ([], [], chat_history stocked)
   \<and> calls (snd (reset_database None None (Some boom) stocked)) =
       [Execute DELETE_chunks, Execute DELETE_documents, Execute DELETE_chat_history]"
  using reset_database_autocommit [of stocked None None "Some boom"]
  by (simp add: stocked_def)

text \<open>
  The claim as stated fails: when the second delete fails, the chunks are gone, the
  documents are still there, and the store is not the one before the call.
\<close>

theorem reset_database_counterexample:
  "fst (reset_database None (Some boom) None stocked) = Inl (reset_error boom)
   \<and> tables (snd (reset_database None (Some boom) None stocked)) \<noteq> tables stocked
   \<and> chunks (snd (reset_database None (Some boom) None stocked)) = []
   \<and> documents (snd (reset_database None (Some boom) None stocked)) = documents stocked
   \<and> documents stocked \<noteq> []"
  by (simp add: reset_database_def conn_def execute_delete_simps record_call_def tables_def
        stocked_def)

text \<open>
  C3. After a reset that succeeded, \<open>count_documents\<close> returns 0 whenever the engine runs
  its query, and whatever \<open>search_chunks\<close> returns, for any query vector and any
  \<open>top_k\<close>, is the empty list.
\<close>

theorem reset_complete:
  assumes "reset_database v1 v2 v3 w = (Inr out, w')"
  shows "fst (count_documents cv w') = (case cv of None \<Rightarrow> Inr 0 | Some e \<Rightarrow> Inl e)
       \<and> (\<forall>hits. fst (search_chunks sv distance v top_k w') = Inr hits \<longrightarrow> hits = [])"
proof -
  from reset_database_Inr [OF assms]
  have c: "connected w'" and d: "documents w' = []" and k: "chunks w' = []" by simp_all
  have 1: "fst (count_documents cv w') = (case cv of None \<Rightarrow> Inr 0 | Some e \<Rightarrow> Inl e)"
    using c d by (simp add: count_documents_def Let_def record_call_def split: option.splits)
  have 2: "hits = []" if "fst (search_chunks sv distance v top_k w') = Inr hits" for hits
    using search_chunks_Inr [OF that] k by simp
  from 1 2 show ?thesis by blast
qed

theorem reset_complete_witness:
  "reset_database None None None stocked =
     (Inr \<lparr>reset_message = ''Database reset successfully'', documents_deleted = True,
           chunks_deleted = True, chat_history_deleted = True\<rparr>,
      snd (reset_database None None None stocked))
   \<and> documents stocked \<noteq> [] \<and> chunks stocked \<noteq> []
   \<and> fst (count_documents None (snd (reset_database None None None stocked))) = Inr 0
   \<and> fst (search_chunks None mismatches [1, 0] 5 (snd (reset_database None None None stocked)))
       = Inr []"
proof -
  let ?w = "snd (reset_database None None None stocked)"
  let ?rows = "take (nat 5) (sort_key hit_distance (map (hit_of mismatches [1, 0]) (chunks ?w)))"
  have n: "documents stocked \<noteq> [] \<and> chunks stocked \<noteq> []" by (simp add: stocked_def)
  have c: "connected ?w" using reset_database_Inr [OF reset_stocked] by simp
  have e: "fst (search_chunks None mismatches [1, 0] 5 ?w) = Inr ?rows"
    by (simp add: search_chunks_connected [OF c])
  from reset_complete [OF reset_stocked, of None None mismatches "[1, 0]" 5] e
  have "fst (count_documents None ?w) = Inr 0" and "?rows = []" by simp_all
  with e n reset_stocked show ?thesis by simp
qed

section \<open>Ingesting the chunks of a PDF\<close>

text \<open>
  C4, as the code has it. The chunks are processed strictly in order, each by an embedding
  request followed by an insert. When the request or the insert fails for the chunk at
  position \<open>k\<close>, the ingestion stops there: no call is made for a later chunk, and the
  caller gets an HTTP error made from the failing exception alone (status 400 and its
  message for a \<open>ValueError\<close>, otherwise status 500 and "PDF upload error: " with its
  message). The ids of the chunks created before the failure are not reported; the
  document row and those \<open>k\<close> chunks stay in the store.
\<close>

theorem upload_stops_at_first_failure:
  assumes "connected w" and "k < length cs" and "length vs = k"
    and "\<forall>i<k. chunk_outcome clients verdicts i (cs ! i) = Inr (vs ! i)"
    and "chunk_outcome clients verdicts k (cs ! k) = Inl e"
  shows "store_chunks clients verdicts d 0 cs [] w =
           (Inl e,
            w\<lparr>calls := calls w @ body_calls d (zip (take k cs) vs) @
                         failing_calls clients d k (cs ! k),
              chunks := chunks w @ stored_rows d (chunks_id_seq w) (zip (take k cs) vs),
              chunks_id_seq := chunks_id_seq w + int k\<rparr>)
       \<and> (endswith (lower (filename file)) ''.pdf'' \<and> file_read file = Inr pdf_bytes
            \<and> process_pdf_for_rag reader splitter pdf_bytes (filename file) = Inr (text, cs)
            \<and> insert_document doc_verdict (filename file) w0 = (Inr d, w) \<longrightarrow>
          upload_pdf reader splitter clients doc_verdict verdicts file w0 =
            (Inl (upload_error e),
             w\<lparr>calls := calls w @ body_calls d (zip (take k cs) vs) @
                          failing_calls clients d k (cs ! k),
               chunks := chunks w @ stored_rows d (chunks_id_seq w) (zip (take k cs) vs),
               chunks_id_seq := chunks_id_seq w + int k\<rparr>))"
proof -
  let ?pre = "take k cs"
  let ?rest = "drop (Suc k) cs"
  let ?ids = "map chunk_id (stored_rows d (chunks_id_seq w) (zip ?pre vs))"
  let ?w = "w\<lparr>calls := calls w @ body_calls d (zip ?pre vs),
             chunks := chunks w @ stored_rows d (chunks_id_seq w) (zip ?pre vs),
             chunks_id_seq := chunks_id_seq w + int k\<rparr>"
  have len: "length ?pre = k" using assms(2) by simp
  have cs: "?pre @ cs ! k # ?rest = cs"
    using assms(2) by (rule id_take_nth_drop [symmetric])
  have all: "list_all2 (\<lambda>(j, c) v. chunk_outcome clients verdicts j c = Inr v)
               (enumerate 0 ?pre) vs"
    unfolding list_all2_conv_all_nth
    using assms(2,3,4) by (simp add: nth_enumerate_eq)
  have c: "connected ?w" using assms(1) by simp
  have 1: "store_chunks clients verdicts d 0 (?pre @ cs ! k # ?rest) [] w =
        store_chunks clients verdicts d k (cs ! k # ?rest) ?ids ?w"
    using store_chunks_prefix [OF assms(1) all, of d "cs ! k # ?rest" "[]", unfolded len]
    by (simp only: add_0 append_Nil)
  have 2: "store_chunks clients verdicts d k (cs ! k # ?rest) ?ids ?w =
        (Inl e, ?w\<lparr>calls := calls ?w @ failing_calls clients d k (cs ! k)\<rparr>)"
    by (rule store_chunks_step_fail [OF c assms(5)])
  have 3: "?w\<lparr>calls := calls ?w @ failing_calls clients d k (cs ! k)\<rparr> =
           w\<lparr>calls := calls w @ body_calls d (zip (take k cs) vs) @
                         failing_calls clients d k (cs ! k),
              chunks := chunks w @ stored_rows d (chunks_id_seq w) (zip (take k cs) vs),
              chunks_id_seq := chunks_id_seq w + int k\<rparr>"
    by simp
  have loop: "store_chunks clients verdicts d 0 cs [] w =
           (Inl e,
            w\<lparr>calls := calls w @ body_calls d (zip (take k cs) vs) @
                         failing_calls clients d k (cs ! k),
              chunks := chunks w @ stored_rows d (chunks_id_seq w) (zip (take k cs) vs),
              chunks_id_seq := chunks_id_seq w + int k\<rparr>)"
    using 1 2 unfolding cs 3 by (rule trans)
  have up: "upload_pdf reader splitter clients doc_verdict verdicts file w0 =
            (Inl (upload_error e),
             w\<lparr>calls := calls w @ body_calls d (zip (take k cs) vs) @
                          failing_calls clients d k (cs ! k),
               chunks := chunks w @ stored_rows d (chunks_id_seq w) (zip (take k cs) vs),
               chunks_id_seq := chunks_id_seq w + int k\<rparr>)"
    if "endswith (lower (filename file)) ''.pdf'' \<and> file_read file = Inr pdf_bytes
            \<and> process_pdf_for_rag reader splitter pdf_bytes (filename file) = Inr (text, cs)
            \<and> insert_document doc_verdict (filename file) w0 = (Inr d, w)"
    using that by (simp add: upload_pdf_def loop)
  from loop up show ?thesis by blast
qed

theorem upload_stops_at_first_failure_witness:
  "connected (snd (insert_document None (filename scan) stocked))
   \<and> (1::nat) < length [''left'', ''right'']
   \<and> length [[1, 0 :: real]] = 1
   \<and> chunk_outcome same_client fail_second 0 ([''left'', ''right''] ! 0) = Inr ([[1, 0]] ! 0)
   \<and> chunk_outcome same_client fail_second 1 ([''left'', ''right''] ! 1) = Inl boom
   \<and> fst (upload_pdf three_pages left_right same_client None fail_second scan stocked) =
       Inl (upload_error boom)
   \<and> map chunk_id
        (chunks (snd (upload_pdf three_pages left_right same_client None fail_second scan
                        stocked))) = [1, 2, 3]"
proof -
  let ?w = "snd (insert_document None (filename scan) stocked)"
  have c: "connected ?w" by (rule sample_document_world)
  have k: "(1::nat) < length [''left'', ''right'']" by simp
  have l: "length [[1, 0 :: real]] = 1" by simp
  have ok: "\<forall>i<1. chunk_outcome same_client fail_second i ([''left'', ''right''] ! i) =
               Inr ([[1, 0]] ! i)"
    by (simp add: chunk_outcome_def same_client_def fail_second_def)
  have ko: "chunk_outcome same_client fail_second 1 ([''left'', ''right''] ! 1) = Inl boom"
    by (simp add: chunk_outcome_def same_client_def fail_second_def)
  have f: "file_read scan = Inr ''%PDF-1.4''" by (simp add: scan_def)
  from upload_stops_at_first_failure
         [OF c k l ok ko, of 2 scan "''%PDF-1.4''" three_pages left_right
            "''--- Page 3 ---'' @ nl @ ''Hello''" None stocked]
       sample_name f sample_text sample_document
  have up: "upload_pdf three_pages left_right same_client None fail_second scan stocked =
            (Inl (upload_error boom),
             ?w\<lparr>calls := calls ?w @ body_calls 2 (zip (take 1 [''left'', ''right'']) [[1, 0]]) @
                          failing_calls same_client 2 1 ([''left'', ''right''] ! 1),
               chunks := chunks ?w @
                 stored_rows 2 (chunks_id_seq ?w) (zip (take 1 [''left'', ''right'']) [[1, 0]]),
               chunks_id_seq := chunks_id_seq ?w + int 1\<rparr>)"
    by blast
  have s: "map chunk_id (chunks stocked) = [1, 2]" by (simp add: stocked_def)
  have "fst (upload_pdf three_pages left_right same_client None fail_second scan stocked) =
       Inl (upload_error boom)
   \<and> map chunk_id
        (chunks (snd (upload_pdf three_pages left_right same_client None fail_second scan
                        stocked))) = [1, 2, 3]"
    unfolding up by (simp add: sample_document_world s)
  moreover have "chunk_outcome same_client fail_second 0 ([''left'', ''right''] ! 0) =
                 Inr ([[1, 0]] ! 0)"
    using ok by simp
  ultimately show ?thesis using c k l ko by blast
qed

text \<open>
  The claim as stated fails: a failure of the second insert, after one chunk was created,
  and a failure of the first insert, after none was, give the caller the same error.
\<close>

theorem upload_error_hides_progress_counterexample:
  "fst (upload_pdf three_pages left_right same_client None fail_second scan stocked) =
     Inl (HTTPException 500 (''PDF upload error: '' @ str boom))
   \<and> map chunk_id
        (chunks (snd (upload_pdf three_pages left_right same_client None fail_second scan
                        stocked))) = [1, 2, 3]
   \<and> fst (upload_pdf three_pages left_right same_client None fail_first scan stocked) =
       Inl (HTTPException 500 (''PDF upload error: '' @ str boom))
   \<and> map chunk_id
        (chunks (snd (upload_pdf three_pages left_right same_client None fail_first scan
                        stocked))) = [1, 2]"
  using sample_name sample_text
  by (simp add: upload_pdf_def scan_def insert_document_def stocked_def record_call_def
        embed_text_def insert_chunk_def same_client_def fail_first_def fail_second_def
        upload_error_def boom_def)

section \<open>The embedding client\<close>

text \<open>
  C5, as the code has it. \<open>embed_text\<close> makes one request and either fails with an
  explicit error, which it does whenever the remote call raises or answers with no
  embedding, or returns the first embedding of the answer as it is: the vector has 1536
  components exactly when the remote answered with 1536, and no check of the dimension
  is made.
\<close>

theorem embed_text_passes_through:
  "(\<forall>e. client text = Inl e \<longrightarrow> fst (embed_text client text w) = Inl e)
   \<and> (client text = Inr [] \<longrightarrow> (\<exists>e. fst (embed_text client text w) = Inl e))
   \<and> (\<forall>v. fst (embed_text client text w) = Inr v \<longleftrightarrow> (\<exists>rest. client text = Inr (v # rest)))
   \<and> (\<forall>v. fst (embed_text client text w) = Inr v \<longrightarrow>
          (length v = 1536 \<longleftrightarrow> (\<exists>rest u. client text = Inr (u # rest) \<and> length u = 1536)))
   \<and> snd (embed_text client text w) = record_call (EmbeddingsCreate text) w"
  by (auto simp: embed_text_def Let_def split: sum.splits list.splits)

theorem embed_text_passes_through_witness:
  "failing_client ''hello'' = Inl boom
   \<and> fst (embed_text failing_client ''hello'' unstocked) = Inl boom
   \<and> fst (embed_text one_vector ''hello'' unstocked) = Inr [1, 0]
   \<and> one_vector ''hello'' = Inr [[1, 0]]"
  using embed_text_passes_through [of failing_client "''hello''" unstocked]
    embed_text_passes_through [of one_vector "''hello''" unstocked]
  by (simp add: failing_client_def one_vector_def)

text \<open>
  The claim as stated fails: a remote answer of two components is returned, not refused.
\<close>

theorem embed_text_dimension_counterexample:
  "fst (embed_text short_vector ''hello'' unstocked) = Inr [1, 2]
   \<and> length [1, 2 :: real] \<noteq> 1536"
  by (simp add: embed_text_def short_vector_def)

section \<open>The limit of the nearest-neighbour query\<close>

text \<open>
  C6, as the code has it. \<open>search_chunks\<close> hands \<open>top_k\<close> to the \<open>LIMIT\<close> of the query as
  it is, without clamping. A \<open>top_k\<close> outside 1..50 is rejected with a validation error by
  the request models of \<open>/search\<close> and \<open>/search-text\<close> before any call is made, so the
  \<open>LIMIT\<close> of every query issued through these routes lies in 1..50.
\<close>

theorem top_k_checked_at_the_boundary:
  "(connected w \<longrightarrow>
      calls (snd (search_chunks verdict distance q top_k w)) =
        calls w @ [Execute (SELECT_chunks q top_k)])
   \<and> (\<not> (1 \<le> top_k \<and> top_k \<le> 50) \<longrightarrow>
        post_search verdict distance q (Some top_k) w = (Inl RequestValidationError, w)
      \<and> post_search_text client verdict distance t (Some top_k) w =
          (Inl RequestValidationError, w))
   \<and> (\<forall>q' l. Execute (SELECT_chunks q' l)
               \<in> set (drop (length (calls w))
                        (calls (snd (post_search verdict distance q k w)))) \<longrightarrow>
             1 \<le> l \<and> l \<le> 50)
   \<and> (\<forall>q' l. Execute (SELECT_chunks q' l)
               \<in> set (drop (length (calls w))
                        (calls (snd (post_search_text client verdict distance t k w)))) \<longrightarrow>
             1 \<le> l \<and> l \<le> 50)"
proof -
  have a: "connected w \<longrightarrow>
      calls (snd (search_chunks verdict distance q top_k w)) =
        calls w @ [Execute (SELECT_chunks q top_k)]"
    by (simp add: search_chunks_connected record_call_def)
  have b: "\<not> (1 \<le> top_k \<and> top_k \<le> 50) \<longrightarrow>
        post_search verdict distance q (Some top_k) w = (Inl RequestValidationError, w)
      \<and> post_search_text client verdict distance t (Some top_k) w =
          (Inl RequestValidationError, w)"
    by (simp add: post_search_def post_search_text_def SearchIn_def SearchTextIn_def)
  have c: "\<forall>q' l. Execute (SELECT_chunks q' l)
               \<in> set (drop (length (calls w))
                        (calls (snd (post_search verdict distance q k w)))) \<longrightarrow>
             1 \<le> l \<and> l \<le> 50"
    by (auto simp: post_search_calls SearchIn_def Let_def
          split: sum.splits if_splits option.splits)
  have d: "\<forall>q' l. Execute (SELECT_chunks q' l)
               \<in> set (drop (length (calls w))
                        (calls (snd (post_search_text client verdict distance t k w)))) \<longrightarrow>
             1 \<le> l \<and> l \<le> 50"
    by (auto simp: post_search_text_def search_text_def embed_text_def search_chunks_def Let_def
          record_call_def SearchTextIn_def
          split: sum.splits option.splits if_splits list.splits)
  from a b c d show ?thesis by blast
qed

theorem top_k_checked_at_the_boundary_witness:
  "connected stocked
   \<and> calls (snd (search_chunks None mismatches [0, 1] 51 stocked)) =
       [Execute (SELECT_chunks [0, 1] 51)]
   \<and> \<not> (1 \<le> (51::int) \<and> (51::int) \<le> 50)
   \<and> post_search None mismatches [0, 1] (Some 51) stocked = (Inl RequestValidationError, stocked)
   \<and> Execute (SELECT_chunks [0, 1] 7)
       \<in> set (drop (length (calls stocked))
                (calls (snd (post_search None mismatches [0, 1] (Some 7) stocked))))
   \<and> (1::int) \<le> 7 \<and> (7::int) \<le> 50"
proof -
  have c: "connected stocked" "calls stocked = []" by (simp_all add: stocked_def)
  have m: "Execute (SELECT_chunks [0, 1] 7)
       \<in> set (drop (length (calls stocked))
                (calls (snd (post_search None mismatches [0, 1] (Some 7) stocked))))"
    by (simp add: post_search_calls SearchIn_def c)
  from top_k_checked_at_the_boundary
         [of stocked None mismatches "[0, 1]" 51 one_vector "''t''" "Some 7"] c m
  show ?thesis by simp
qed

text \<open>
  The claim as stated fails: with chunks in the store, a \<open>top_k\<close> of 0 reaches the query
  as \<open>LIMIT 0\<close> and no row comes back, where a limit clamped to 1 would return one; a
  \<open>top_k\<close> of 51 reaches the query as \<open>LIMIT 51\<close>.
\<close>

theorem search_chunks_not_clamped_counterexample:
  "search_chunks None mismatches [0, 1] 0 stocked =
     (Inr [], record_call (Execute (SELECT_chunks [0, 1] 0)) stocked)
   \<and> chunks stocked \<noteq> []
   \<and> calls (snd (search_chunks None mismatches [0, 1] 51 stocked)) =
       [Execute (SELECT_chunks [0, 1] 51)]"
  by (simp add: search_chunks_def stocked_def record_call_def)

section \<open>The order and the number of the rows retrieved\<close>

text \<open>
  C7. Whatever the stored chunks and the query vector, the rows that \<open>search_chunks\<close>
  returns are in non-decreasing order of their distance, each is a stored chunk with its
  distance to the query under the one operator, no chunk left out is nearer than a chunk
  returned, and their number is the minimum of \<open>top_k\<close> and the number of stored chunks.
  The search does return whenever the connection is open, the engine runs the statement
  and \<open>top_k\<close> is not negative.
\<close>

theorem search_chunks_ordering:
  "(\<forall>hits. fst (search_chunks verdict distance q top_k w) = Inr hits \<longrightarrow>
       sorted (map hit_distance hits)
     \<and> int (length hits) = min top_k (int (length (chunks w)))
     \<and> set hits \<subseteq> hit_of distance q ` set (chunks w)
     \<and> (\<forall>c \<in> set (chunks w). hit_of distance q c \<notin> set hits \<longrightarrow>
          (\<forall>h \<in> set hits. hit_distance h \<le> distance (chunk_embedding c) q)))
   \<and> (connected w \<and> 0 \<le> top_k \<longrightarrow>
        (\<exists>hits. fst (search_chunks None distance q top_k w) = Inr hits))"
proof -
  let ?all = "sort_key hit_distance (map (hit_of distance q) (chunks w))"
  have srt: "sorted (map hit_distance ?all)" by (rule sorted_sort_key)
  have split: "map hit_distance ?all =
      map hit_distance (take (nat top_k) ?all) @ map hit_distance (drop (nat top_k) ?all)"
    by (simp flip: map_append)
  have A: "sorted (map hit_distance hits)
     \<and> int (length hits) = min top_k (int (length (chunks w)))
     \<and> set hits \<subseteq> hit_of distance q ` set (chunks w)
     \<and> (\<forall>c \<in> set (chunks w). hit_of distance q c \<notin> set hits \<longrightarrow>
          (\<forall>h \<in> set hits. hit_distance h \<le> distance (chunk_embedding c) q))"
    if "fst (search_chunks verdict distance q top_k w) = Inr hits" for hits
  proof -
    from search_chunks_Inr [OF that]
    have k: "0 \<le> top_k" and h: "hits = take (nat top_k) ?all" by simp_all
    have s1: "sorted (map hit_distance hits)"
      using srt unfolding h by (simp add: take_map [symmetric] sorted_wrt_take)
    have s2: "int (length hits) = min top_k (int (length (chunks w)))"
      using k unfolding h by (auto simp: min_def)
    have s3: "set hits \<subseteq> hit_of distance q ` set (chunks w)"
      unfolding h using set_take_subset [of "nat top_k" ?all] by auto
    have s4: "hit_distance x \<le> distance (chunk_embedding c) q"
      if c: "c \<in> set (chunks w)" and n: "hit_of distance q c \<notin> set hits" and x: "x \<in> set hits"
      for c x
    proof -
      have "hit_of distance q c \<in> set ?all" using c by simp
      then have "hit_of distance q c \<in> set (take (nat top_k) ?all) \<union> set (drop (nat top_k) ?all)"
        by (metis append_take_drop_id set_append)
      with n h have d: "hit_of distance q c \<in> set (drop (nat top_k) ?all)" by simp
      have "sorted (map hit_distance (take (nat top_k) ?all) @
                    map hit_distance (drop (nat top_k) ?all))"
        using srt split by simp
      then have "\<forall>a \<in> set (map hit_distance (take (nat top_k) ?all)).
                 \<forall>b \<in> set (map hit_distance (drop (nat top_k) ?all)). a \<le> b"
        by (simp add: sorted_append)
      with d x h have "hit_distance x \<le> hit_distance (hit_of distance q c)" by auto
      then show ?thesis by (simp add: hit_of_def)
    qed
    from s1 s2 s3 s4 show ?thesis by blast
  qed
  have B: "\<exists>hits. fst (search_chunks None distance q top_k w) = Inr hits"
    if "connected w \<and> 0 \<le> top_k"
    using that by (simp add: search_chunks_connected)
  from A B show ?thesis by blast
qed

theorem search_chunks_ordering_witness:
  "connected stocked \<and> (0::int) \<le> 2
   \<and> fst (search_chunks None mismatches [0, 1] 2 stocked) =
       Inr [\<lparr>hit_id = 2, hit_doc_id = 1, hit_content = ''beta'', hit_distance = 0\<rparr>,
            \<lparr>hit_id = 1, hit_doc_id = 1, hit_content = ''alpha'', hit_distance = 2\<rparr>]
   \<and> sorted (map hit_distance
               [\<lparr>hit_id = 2, hit_doc_id = 1, hit_content = ''beta'', hit_distance = 0::nat\<rparr>,
                \<lparr>hit_id = 1, hit_doc_id = 1, hit_content = ''alpha'', hit_distance = 2\<rparr>])
   \<and> int (length
            [\<lparr>hit_id = 2, hit_doc_id = 1, hit_content = ''beta'', hit_distance = 0::nat\<rparr>,
             \<lparr>hit_id = 1, hit_doc_id = 1, hit_content = ''alpha'', hit_distance = 2\<rparr>])
       = min 2 (int (length (chunks stocked)))"
proof -
  have c: "connected stocked" by (simp add: stocked_def)
  have e: "fst (search_chunks None mismatches [0, 1] 2 stocked) =
       Inr [\<lparr>hit_id = 2, hit_doc_id = 1, hit_content = ''beta'', hit_distance = 0\<rparr>,
            \<lparr>hit_id = 1, hit_doc_id = 1, hit_content = ''alpha'', hit_distance = 2\<rparr>]"
    by (simp add: search_chunks_def stocked_def record_call_def hit_of_def mismatches_def)
  from search_chunks_ordering [of None mismatches "[0, 1]" 2 stocked] c e
  show ?thesis by simp
qed

section \<open>Extracting the text of a PDF\<close>

text \<open>
  C8. When the file can be opened, a page on which \<open>extract_text\<close> raises or returns only
  white space is skipped and the extraction goes on: the extracted text is made of the
  pages that yield text, in order, under their page numbers. When no page yields text the
  extraction fails with a \<open>ValueError\<close>, and \<open>upload_pdf\<close> reports it with status 400,
  having made no call and changed nothing.
\<close>

theorem extraction_skips_pages_without_text:
  assumes "reader pdf_bytes = Inr pages"
  shows "extract_text_from_pdf reader pdf_bytes =
           (if list_ex yields_text pages
            then Inr (join (nl @ nl)
                        (map page_block
                           (filter (\<lambda>(i, p). yields_text p) (enumerate 1 pages))))
            else Inl (Exn ValueError no_text_found))
       \<and> (\<not> list_ex yields_text pages \<and> endswith (lower (filename file)) ''.pdf''
            \<and> file_read file = Inr pdf_bytes \<longrightarrow>
          upload_pdf reader splitter clients doc_verdict verdicts file w =
            (Inl (HTTPException 400 no_text_found), w))"
proof -
  have e: "extract_text_from_pdf reader pdf_bytes =
           (if list_ex yields_text pages
            then Inr (join (nl @ nl)
                        (map page_block
                           (filter (\<lambda>(i, p). yields_text p) (enumerate 1 pages))))
            else Inl (Exn ValueError no_text_found))"
    unfolding extract_text_from_pdf_def Let_def assms
    by (simp add: extract_pages_empty no_text_found_def)
       (simp add: extract_pages_blocks)
  have u: "upload_pdf reader splitter clients doc_verdict verdicts file w =
            (Inl (HTTPException 400 no_text_found), w)"
    if "\<not> list_ex yields_text pages \<and> endswith (lower (filename file)) ''.pdf''
            \<and> file_read file = Inr pdf_bytes"
    using that
    by (simp add: upload_pdf_def process_pdf_for_rag_def e upload_error_def)
  from e u show ?thesis by blast
qed

theorem extraction_skips_pages_without_text_witness:
  "three_pages ''%PDF-1.4'' = Inr [Inr ''  '', Inl boom, Inr ''Hello'']
   \<and> extract_text_from_pdf three_pages ''%PDF-1.4'' = Inr (''--- Page 3 ---'' @ nl @ ''Hello'')
   \<and> blank_pages ''%PDF-1.4'' = Inr [Inr ''  '', Inl boom]
   \<and> \<not> list_ex yields_text [Inr ''  '', Inl boom]
   \<and> endswith (lower (filename scan)) ''.pdf''
   \<and> file_read scan = Inr ''%PDF-1.4''
   \<and> upload_pdf blank_pages whole_text same_client None no_faults scan stocked =
       (Inl (HTTPException 400 no_text_found), stocked)"
proof -
  have r3: "three_pages ''%PDF-1.4'' = Inr [Inr ''  '', Inl boom, Inr ''Hello'']"
    by (simp add: three_pages_def)
  have r2: "blank_pages ''%PDF-1.4'' = Inr [Inr ''  '', Inl boom]"
    by (simp add: blank_pages_def)
  have y3: "list_ex yields_text [Inr ''  '', Inl boom, Inr ''Hello'']"
    by code_simp
  have b3: "join (nl @ nl)
              (map page_block
                 (filter (\<lambda>(i, p). yields_text p)
                    (enumerate 1 [Inr ''  '', Inl boom, Inr ''Hello'']))) =
            ''--- Page 3 ---'' @ nl @ ''Hello''"
    by code_simp
  have y2: "\<not> list_ex yields_text [Inr ''  '', Inl boom]"
    by code_simp
  have n: "endswith (lower (filename scan)) ''.pdf''"
    unfolding scan_def by code_simp
  have f: "file_read scan = Inr ''%PDF-1.4''"
    by (simp add: scan_def)
  from extraction_skips_pages_without_text
         [of three_pages "''%PDF-1.4''" "[Inr ''  '', Inl boom, Inr ''Hello'']", OF r3] y3 b3
  have 1: "extract_text_from_pdf three_pages ''%PDF-1.4'' = Inr (''--- Page 3 ---'' @ nl @ ''Hello'')"
    by simp
  from extraction_skips_pages_without_text
         [of blank_pages "''%PDF-1.4''" "[Inr ''  '', Inl boom]" scan whole_text same_client
            None no_faults stocked, OF r2] y2 n f
  have 2: "upload_pdf blank_pages whole_text same_client None no_faults scan stocked =
       (Inl (HTTPException 400 no_text_found), stocked)"
    by blast
  from r3 r2 y2 n f 1 2 show ?thesis by blast
qed

section \<open>The order of a session's history\<close>

text \<open>
  C9. In whatever order the engine holds the rows of the chat table, when the rows of a
  session were created at strictly increasing times in the order of insertion,
  \<open>get_chat_history\<close> after any run of inserts returns for that session exactly the rows
  it had before followed by the inserted ones, in the order of insertion, which is the
  ascending order of creation time; rows of other sessions do not appear.
\<close>

theorem chat_history_in_insertion_order:
  assumes "connected w" and "connected w'"
    and "mset (chat_history w') = mset (chat_history (insert_chats entries w))"
    and "sorted_wrt (<)
           (map chat_created_at (filter (\<lambda>r. chat_session_id r = s) (chat_history w)) @
            map entry_time (filter (\<lambda>e. entry_session e = s) entries))"
  shows "fst (get_chat_history None s w') =
           Inr (map history_of (filter (\<lambda>r. chat_session_id r = s) (chat_history w)) @
                map entry_row (filter (\<lambda>e. entry_session e = s) entries))"
proof -
  let ?P = "\<lambda>r. chat_session_id r = s"
  let ?ys = "filter ?P (chat_history (insert_chats entries w))"
  let ?xs = "filter ?P (chat_history w')"
  from insert_chats_rows [OF assms(1), of entries s]
  have r: "map history_of ?ys =
       map history_of (filter ?P (chat_history w)) @
       map entry_row (filter (\<lambda>e. entry_session e = s) entries)"
    and t: "map chat_created_at ?ys =
       map chat_created_at (filter ?P (chat_history w)) @
       map entry_time (filter (\<lambda>e. entry_session e = s) entries)"
    by blast+
  have strict: "sorted_wrt (<) (map chat_created_at ?ys)" using assms(4) unfolding t .
  then have srt: "sorted (map chat_created_at ?ys)"
    by (rule strict_sorted_imp_sorted)
  from strict have "distinct (map chat_created_at ?ys)"
    by (simp add: strict_sorted_iff)
  then have inj_ys: "inj_on chat_created_at (set ?ys)"
    by (simp add: distinct_map)
  have "mset ?xs = filter_mset ?P (mset (chat_history w'))" by simp
  also have "\<dots> = filter_mset ?P (mset (chat_history (insert_chats entries w)))"
    by (simp only: assms(3))
  also have "\<dots> = mset ?ys" by simp
  finally have m: "mset ?xs = mset ?ys" .
  then have "set ?xs = set ?ys" by (rule mset_eq_setD)
  with inj_ys have inj_xs: "inj_on chat_created_at (set ?xs)" by simp
  have "sort_key chat_created_at ?xs = ?ys"
    using m inj_xs srt by (rule sort_key_inj_key_eq)
  then show ?thesis
    unfolding get_chat_history_connected [OF assms(2)] r [symmetric] by simp
qed

theorem chat_history_in_insertion_order_witness:
  "connected stocked \<and> connected shuffled
   \<and> mset (chat_history shuffled) = mset (chat_history (insert_chats dialogue stocked))
   \<and> sorted_wrt (<)
        (map chat_created_at (filter (\<lambda>r. chat_session_id r = ''s'') (chat_history stocked)) @
         map entry_time (filter (\<lambda>e. entry_session e = ''s'') dialogue))
   \<and> map chat_created_at (chat_history shuffled) = [14, 13, 12, 11, 10]
   \<and> fst (get_chat_history None ''s'' shuffled) =
       Inr [\<lparr>h_role = ''user'', h_message = ''hi'', h_created_at = 10\<rparr>,
            \<lparr>h_role = ''user'', h_message = ''what is a chunk?'', h_created_at = 11\<rparr>,
            \<lparr>h_role = ''assistant'', h_message = ''a slice of a document'', h_created_at = 12\<rparr>,
            \<lparr>h_role = ''user'', h_message = ''thanks'', h_created_at = 14\<rparr>]"
proof -
  have c: "connected stocked" by (simp add: stocked_def)
  have c': "connected shuffled"
    using dialogue_stocked_connected by (simp add: shuffled_def)
  have m: "mset (chat_history shuffled) = mset (chat_history (insert_chats dialogue stocked))"
    by (simp add: shuffled_def)
  have s: "sorted_wrt (<)
        (map chat_created_at (filter (\<lambda>r. chat_session_id r = ''s'') (chat_history stocked)) @
         map entry_time (filter (\<lambda>e. entry_session e = ''s'') dialogue))"
    by (simp add: stocked_def dialogue_def)
  have o: "map chat_created_at (chat_history shuffled) = [14, 13, 12, 11, 10]"
    by (simp add: shuffled_def dialogue_def stocked_def insert_chat_def record_call_def)
  from chat_history_in_insertion_order [OF c c' m s] c c' m s o
  show ?thesis by (simp add: stocked_def dialogue_def history_of_def)
qed

section \<open>The role of a chat message\<close>

text \<open>
  C10. \<open>add_chat\<close> lower-cases the role before it validates and stores it. A role that is
  "user" or "assistant" in any mix of letter cases is accepted and, the insert succeeding,
  stored in lower case; every other role is rejected with status 400, and the world is
  left as it was: no statement is executed.
\<close>

theorem add_chat_role_lowered:
  "(connected w \<and>
      (mixed_case_of ''user'' (in_role body) \<or> mixed_case_of ''assistant'' (in_role body)) \<longrightarrow>
      add_chat None now body w =
        (Inr (chat_history_id_seq w + 1),
         w\<lparr>calls := calls w @ [Execute (INSERT_chat (in_session_id body) (lower (in_role body))
                                          (in_message body))],
           chat_history := chat_history w @
             [\<lparr>chat_id = chat_history_id_seq w + 1, chat_session_id = in_session_id body,
               chat_role = lower (in_role body), chat_message = in_message body,
               chat_created_at = now\<rparr>],
           chat_history_id_seq := chat_history_id_seq w + 1\<rparr>)
      \<and> (lower (in_role body) = ''user'' \<or> lower (in_role body) = ''assistant''))
   \<and> (\<not> (mixed_case_of ''user'' (in_role body) \<or> mixed_case_of ''assistant'' (in_role body)) \<longrightarrow>
        (\<exists>detail. add_chat verdict now body w = (Inl (HTTPException 400 detail), w)))"
proof -
  have u: "mixed_case_of ''user'' (in_role body) \<longleftrightarrow> lower (in_role body) = ''user''"
    by (rule lower_eq_word [OF user_lowercase, symmetric])
  have a: "mixed_case_of ''assistant'' (in_role body) \<longleftrightarrow> lower (in_role body) = ''assistant''"
    by (rule lower_eq_word [OF assistant_lowercase, symmetric])
  show ?thesis
    unfolding u a
    using add_chat_accepts [of w body now] add_chat_rejects [of body verdict now w]
    by blast
qed

theorem add_chat_role_lowered_witness:
  "connected stocked
   \<and> mixed_case_of ''assistant'' (in_role shout)
   \<and> fst (add_chat None 11 shout stocked) = Inr 2
   \<and> map chat_role (chat_history (snd (add_chat None 11 shout stocked))) =
       [''user'', ''assistant'']
   \<and> \<not> (mixed_case_of ''user'' (in_role intruder) \<or>
         mixed_case_of ''assistant'' (in_role intruder))
   \<and> (\<exists>detail. add_chat (Some boom) 11 intruder stocked =
                  (Inl (HTTPException 400 detail), stocked))"
proof -
  have c: "connected stocked" by (simp add: stocked_def)
  have m: "mixed_case_of ''assistant'' (in_role shout)"
    unfolding shout_def by code_simp
  have n: "\<not> (mixed_case_of ''user'' (in_role intruder) \<or>
              mixed_case_of ''assistant'' (in_role intruder))"
    unfolding intruder_def by code_simp
  have l0: "lower ''ASSISTANT'' = ''assistant''" by code_simp
  have l: "lower (in_role shout) = ''assistant''"
    by (simp add: shout_def l0)
  have s: "chat_history_id_seq stocked = 1" "map chat_role (chat_history stocked) = [''user'']"
    by (simp_all add: stocked_def)
  from add_chat_role_lowered [of stocked shout 11] c m
  have e: "add_chat None 11 shout stocked =
        (Inr (chat_history_id_seq stocked + 1),
         stocked\<lparr>calls := calls stocked @
                   [Execute (INSERT_chat (in_session_id shout) (lower (in_role shout))
                               (in_message shout))],
           chat_history := chat_history stocked @
             [\<lparr>chat_id = chat_history_id_seq stocked + 1, chat_session_id = in_session_id shout,
               chat_role = lower (in_role shout), chat_message = in_message shout,
               chat_created_at = 11\<rparr>],
           chat_history_id_seq := chat_history_id_seq stocked + 1\<rparr>)"
    by blast
  have 1: "fst (add_chat None 11 shout stocked) = Inr 2
   \<and> map chat_role (chat_history (snd (add_chat None 11 shout stocked))) =
       [''user'', ''assistant'']"
    unfolding e by (simp add: s l)
  from add_chat_role_lowered [of stocked intruder 11 "Some boom"] n
  have 2: "\<exists>detail. add_chat (Some boom) 11 intruder stocked =
                     (Inl (HTTPException 400 detail), stocked)"
    by blast
  from c m n 1 2 show ?thesis by blast
qed

end
